theory Spec2Isabelle
  imports Complex_Main
begin

section \<open>Python values used by \<open>multicamselfcal/execute.py\<close>\<close>

text \<open>
  The module is Python 2 code (\<open>map\<close> is eager and returns a list, \<open>dict.keys()\<close> is a
  list, files opened in binary mode yield \<open>str\<close> lines).  Exceptions are values of
  \<open>error\<close>; a function that can raise returns \<open>error + 'a\<close>, and one that also changes
  the file system or the log returns the world it leaves behind next to its result,
  also when it raises.
\<close>

datatype error =
    IndexError
  | KeyError string
  | ValueError
  | AssertionError
  | TypeError
  | IOError
  | ShutilError
  | Exception string

text \<open>
  The world is the part of the environment the module touches: the files (path to
  content) and the records handed to the \<open>mcsc\<close> logger.  A write to an open file is
  taken to reach the file at once.
\<close>

record world =
  files :: "string \<rightharpoonup> string"
  logged :: "string list"

type_synonym 'a action = "world \<Rightarrow> (error + 'a) \<times> world"

definition ret :: "'a \<Rightarrow> 'a action" where
  "ret x = (\<lambda>w. (Inr x, w))"

definition raise :: "error \<Rightarrow> 'a action" where
  "raise e = (\<lambda>w. (Inl e, w))"

definition bnd :: "'a action \<Rightarrow> ('a \<Rightarrow> 'b action) \<Rightarrow> 'b action" where
  "bnd m f = (\<lambda>w. case m w of (Inl e, w') \<Rightarrow> (Inl e, w') | (Inr x, w') \<Rightarrow> f x w')"

definition lift :: "error + 'a \<Rightarrow> 'a action" where
  "lift r = (\<lambda>w. (r, w))"

definition LOG :: "string \<Rightarrow> unit action" where
  "LOG msg = (\<lambda>w. (Inr (), w\<lparr>logged := logged w @ [msg]\<rparr>))"

text \<open>\<open>open(path, 'w')\<close> truncates; \<open>fd.write(s)\<close> appends to the file the handle is open on.\<close>

definition open_w :: "string \<Rightarrow> unit action" where
  "open_w path = (\<lambda>w. (Inr (), w\<lparr>files := (files w)(path \<mapsto> [])\<rparr>))"

definition fd_write :: "string \<Rightarrow> string \<Rightarrow> unit action" where
  "fd_write path s =
     (\<lambda>w. (Inr (), w\<lparr>files := (files w)(path \<mapsto> (case files w path of None \<Rightarrow> s | Some old \<Rightarrow> old @ s))\<rparr>))"

subsection \<open>Strings\<close>

definition nl :: char where
  "nl = CHR 0x0A"

text \<open>The characters \<open>str.strip()\<close> and \<open>str.split()\<close> treat as whitespace.\<close>

definition isspace :: "char \<Rightarrow> bool" where
  "isspace c = (c = CHR '' '' \<or> c = CHR 0x09 \<or> c = CHR 0x0A \<or> c = CHR 0x0B \<or> c = CHR 0x0C \<or> c = CHR 0x0D)"

definition strip :: "string \<Rightarrow> string" where
  "strip s = rev (dropWhile isspace (rev (dropWhile isspace s)))"

text \<open>\<open>s.split()\<close>: the maximal runs of non-whitespace characters.\<close>

fun split_ws :: "string \<Rightarrow> string list" where
  "split_ws [] = []"
| "split_ws (c # cs) =
     (if isspace c then split_ws cs
      else if cs = [] \<or> isspace (hd cs) then [c] # split_ws cs
      else (case split_ws cs of [] \<Rightarrow> [[c]] | t # ts \<Rightarrow> (c # t) # ts))"

text \<open>\<open>s.split(sep)\<close> for a one-character separator: never empty, \<open>''.split(sep) == ['']\<close>.\<close>

fun split_on :: "char \<Rightarrow> string \<Rightarrow> string list" where
  "split_on sep [] = [[]]"
| "split_on sep (c # cs) =
     (if c = sep then [] # split_on sep cs
      else (case split_on sep cs of [] \<Rightarrow> [[c]] | l # ls \<Rightarrow> (c # l) # ls))"

text \<open>\<open>fd.readlines()\<close>: the lines of the file, each with its terminating newline.\<close>

fun readlines :: "string \<Rightarrow> string list" where
  "readlines [] = []"
| "readlines (c # cs) =
     (if c = nl then [c] # readlines cs
      else (case readlines cs of [] \<Rightarrow> [[c]] | l # ls \<Rightarrow> (c # l) # ls))"

text \<open>\<open>sep.join(xs)\<close>.\<close>

fun join :: "string \<Rightarrow> string list \<Rightarrow> string" where
  "join sep [] = []"
| "join sep [x] = x"
| "join sep (x # y # ys) = x @ sep @ join sep (y # ys)"

text \<open>\<open>s.endswith(suffix)\<close>.\<close>

definition endswith :: "string \<Rightarrow> string \<Rightarrow> bool" where
  "endswith s suffix = (length suffix \<le> length s \<and> drop (length s - length suffix) s = suffix)"

text \<open>\<open>os.path.join(a, b)\<close> of \<open>posixpath\<close>.\<close>

definition path_join :: "string \<Rightarrow> string \<Rightarrow> string" where
  "path_join a b =
     (if b \<noteq> [] \<and> hd b = CHR ''/'' then b
      else if a = [] \<or> last a = CHR ''/'' then a @ b
      else a @ ''/'' @ b)"

text \<open>Decimal text of a non-negative integer (\<open>'%d' % n\<close>, \<open>repr\<close> of a numpy \<open>uint8\<close>).\<close>

definition digit :: "nat \<Rightarrow> char" where
  "digit d = ''0123456789'' ! d"

fun str_nat :: "nat \<Rightarrow> string" where
  "str_nat n = (if n < 10 then [digit n] else str_nat (n div 10) @ [digit (n mod 10)])"

declare str_nat.simps [simp del]

text \<open>Decimal text of an integer (\<open>'{}'.format(n)\<close> for an \<open>int\<close>).\<close>

definition str_int :: "int \<Rightarrow> string" where
  "str_int i = (if i < 0 then CHR ''-'' # str_nat (nat (- i)) else str_nat (nat i))"

section \<open>The matrix codec\<close>

text \<open>
  A 2-dimensional array is the list of its rows.  The only thing \<open>save_ascii_matrix\<close>
  asks of the element type is the dtype test \<open>arr.dtype == np.bool\<close>, so an array is
  either a boolean one or one of some other dtype \<open>'a\<close>.  Arrays of another number of
  dimensions (on which \<open>assert arr.ndim == 2\<close> fails) are not values of this type.
\<close>

datatype 'a ndarray = BoolArray "bool list list" | NumArray "'a list list"

definition rectangular :: "'a list list \<Rightarrow> bool" where
  "rectangular rows = list_all (\<lambda>r. length r = length (hd rows)) rows"

text \<open>\<open>len(arr)\<close>: the number of rows.\<close>

fun len_array :: "'a ndarray \<Rightarrow> nat" where
  "len_array (BoolArray rows) = length rows"
| "len_array (NumArray rows) = length rows"

text \<open>\<open>arr.astype(np.uint8)\<close> on a boolean array.\<close>

definition astype_uint8 :: "bool list list \<Rightarrow> nat list list" where
  "astype_uint8 rows = map (map (\<lambda>b. if b then 1 else 0)) rows"

text \<open>
  The loop \<open>for row in arr: fd.write(' '.join(map(repr, row))); fd.write('\n')\<close>, on the
  text written so far.  \<open>repr\<close> of the element type is numpy's and is a parameter.
\<close>

fun write_rows :: "('a \<Rightarrow> string) \<Rightarrow> 'a list list \<Rightarrow> string \<Rightarrow> string" where
  "write_rows repr [] buf = buf"
| "write_rows repr (row # rows) buf =
     write_rows repr rows ((buf @ join '' '' (map repr row)) @ [nl])"

definition matrix_text :: "('a \<Rightarrow> string) \<Rightarrow> 'a ndarray \<Rightarrow> string" where
  "matrix_text repr arr =
     (case arr of
        BoolArray rows \<Rightarrow> write_rows str_nat (astype_uint8 rows) []
      | NumArray rows \<Rightarrow> write_rows repr rows [])"

text \<open>
  The destination of \<open>save_ascii_matrix\<close> is a path, which the function opens (and so
  truncates) and closes itself, or a file the caller has open, named here by its path.
\<close>

datatype dest = Path string | Stream string

definition save_ascii_matrix :: "('a \<Rightarrow> string) \<Rightarrow> 'a ndarray \<Rightarrow> dest \<Rightarrow> unit action" where
  "save_ascii_matrix repr arr fd =
     (case fd of
        Path p \<Rightarrow> bnd (open_w p) (\<lambda>_. fd_write p (matrix_text repr arr))
      | Stream p \<Rightarrow> fd_write p (matrix_text repr arr))"

text \<open>
  \<open>load_ascii_matrix\<close>.  The first loop keeps the stripped lines that do not start
  with \<open>#\<close>; \<open>line[0]\<close> raises on an empty line.  The comprehension then applies
  \<open>float\<close>, Python's builtin and a parameter here (\<open>None\<close> where it raises
  \<open>ValueError\<close>), to every token.  The result is the nested list handed to \<open>np.array\<close>.
\<close>

fun load_lines :: "string list \<Rightarrow> string list \<Rightarrow> error + string list" where
  "load_lines [] lines = Inr lines"
| "load_lines (line # rest) lines =
     (case line of
        [] \<Rightarrow> Inl IndexError
      | c # _ \<Rightarrow> if c = CHR ''#'' then load_lines rest lines
                 else load_lines rest (lines @ [strip line]))"

fun map_float :: "(string \<Rightarrow> 'v option) \<Rightarrow> string list \<Rightarrow> error + 'v list" where
  "map_float pfloat [] = Inr []"
| "map_float pfloat (t # ts) =
     (case pfloat t of
        None \<Rightarrow> Inl ValueError
      | Some v \<Rightarrow> (case map_float pfloat ts of Inl e \<Rightarrow> Inl e | Inr vs \<Rightarrow> Inr (v # vs)))"

fun parse_lines :: "(string \<Rightarrow> 'v option) \<Rightarrow> string list \<Rightarrow> error + 'v list list" where
  "parse_lines pfloat [] = Inr []"
| "parse_lines pfloat (line # lines) =
     (case map_float pfloat (split_ws line) of
        Inl e \<Rightarrow> Inl e
      | Inr row \<Rightarrow> (case parse_lines pfloat lines of Inl e \<Rightarrow> Inl e | Inr rows \<Rightarrow> Inr (row # rows)))"

definition load_text :: "(string \<Rightarrow> 'v option) \<Rightarrow> string \<Rightarrow> error + 'v list list" where
  "load_text pfloat content =
     (case load_lines (readlines content) [] of
        Inl e \<Rightarrow> Inl e
      | Inr lines \<Rightarrow> parse_lines pfloat lines)"

definition load_ascii_matrix :: "(string \<Rightarrow> 'v option) \<Rightarrow> string \<Rightarrow> world \<Rightarrow> error + 'v list list" where
  "load_ascii_matrix pfloat filename w =
     (case files w filename of
        None \<Rightarrow> Inl IOError
      | Some content \<Rightarrow> load_text pfloat content)"

text \<open>
  What the round trip asks of the text \<open>repr\<close> gives for an element: it is one
  whitespace-free, non-empty token, and it does not open with the comment character.
  The \<open>repr\<close> of every real integer or floating-point numpy scalar is such a text.
\<close>

definition token :: "string \<Rightarrow> bool" where
  "token t = (t \<noteq> [] \<and> list_all (\<lambda>c. \<not> isspace c) t)"

definition number_text :: "string \<Rightarrow> bool" where
  "number_text t = (token t \<and> hd t \<noteq> CHR ''#'')"

section \<open>Floating-point values and the numpy operations on them\<close>

text \<open>
  An element of a float64 array is a finite number, an infinity or NaN.  The operations
  the module applies to observations (\<open>nan_to_num\<close>, \<open>clip\<close>, \<open>count_nonzero\<close>) only
  compare and select values, so a finite value is carried as the real number it
  denotes.
\<close>

datatype npfloat = Fin real | PInf | NInf | NaN

text \<open>The largest finite float64, which \<open>np.nan_to_num\<close> substitutes for an infinity.\<close>

definition float_max :: real where
  "float_max = 2 ^ 1024 - 2 ^ 971"

fun nan_to_num :: "npfloat \<Rightarrow> npfloat" where
  "nan_to_num NaN = Fin 0"
| "nan_to_num PInf = Fin float_max"
| "nan_to_num NInf = Fin (- float_max)"
| "nan_to_num (Fin x) = Fin x"

text \<open>\<open>a.clip(max=m)\<close> on one element: the minimum of the element and \<open>m\<close>.\<close>

fun clip_max :: "real \<Rightarrow> npfloat \<Rightarrow> npfloat" where
  "clip_max m (Fin x) = Fin (min x m)"
| "clip_max m PInf = Fin m"
| "clip_max m NInf = NInf"
| "clip_max m NaN = NaN"

fun nonzero :: "npfloat \<Rightarrow> bool" where
  "nonzero (Fin x) = (x \<noteq> 0)"
| "nonzero PInf = True"
| "nonzero NInf = True"
| "nonzero NaN = True"

text \<open>\<open>np.count_nonzero\<close> of a 2-dimensional array.\<close>

definition count_nonzero :: "npfloat list list \<Rightarrow> nat" where
  "count_nonzero arr = length (filter nonzero (concat arr))"

text \<open>
  \<open>np.array\<close> of a nested list of floats.  A ragged nested list is not a numeric
  array.  Depending on its version numpy raises on it at once, or builds a
  1-dimensional array of objects, on which \<open>create_from_cams\<close> raises later, at
  \<open>points.shape[1]\<close>.  No call returns normally on it; the model raises at once, so
  nothing is stated here about what a call on a ragged list has written when it raises.
\<close>

definition np_array :: "'a list list \<Rightarrow> error + 'a list list" where
  "np_array rows = (if rectangular rows then Inr rows else Inl ValueError)"

text \<open>\<open>np.hstack((points, np.ones((npts, 1))))\<close> and \<open>points.T\<close>.\<close>

definition hstack_ones :: "npfloat list list \<Rightarrow> npfloat list list" where
  "hstack_ones points = map (\<lambda>row. row @ [Fin 1]) points"

definition T :: "'a list list \<Rightarrow> 'a list list" where
  "T m = map (\<lambda>j. map (\<lambda>row. row ! j) m) [0 ..< length (hd m)]"

text \<open>
  The visibility row of \<open>create_from_cams\<close>: \<open>found = points[0,:]\<close> followed by
  \<open>np.nan_to_num(found).clip(max=1)\<close>.
\<close>

definition found_row :: "npfloat list \<Rightarrow> npfloat list" where
  "found_row found = map (clip_max 1) (map nan_to_num found)"

section \<open>Dictionaries\<close>

text \<open>
  A \<open>dict\<close> with string keys is an association list in which the first entry of a key
  is the one that counts; the order of \<open>keys()\<close>, which Python 2 leaves unspecified, is
  the order of the list.
\<close>

type_synonym 'v dict = "(string \<times> 'v) list"

definition keys :: "'v dict \<Rightarrow> string list" where
  "keys d = remdups (map fst d)"

definition len_dict :: "'v dict \<Rightarrow> nat" where
  "len_dict d = length (keys d)"

definition getitem :: "'v dict \<Rightarrow> string \<Rightarrow> error + 'v" where
  "getitem d k = (case map_of d k of None \<Rightarrow> Inl (KeyError k) | Some v \<Rightarrow> Inr v)"

definition contains :: "'v dict \<Rightarrow> string \<Rightarrow> bool" where
  "contains d k = (map_of d k \<noteq> None)"

section \<open>The class \<open>MultiCamSelfCal\<close>\<close>

record mcsc =
  out_dirname :: string
  basename :: string
  use_nth_frame :: int

subsection \<open>\<open>_write_cam_ids\<close> and \<open>read_calibration_names\<close>\<close>

fun write_cam_ids_loop :: "string \<Rightarrow> string list \<Rightarrow> unit action" where
  "write_cam_ids_loop f [] = ret ()"
| "write_cam_ids_loop f (camid # rest) =
     (case camid of
        [] \<Rightarrow> raise IndexError
      | c # cs \<Rightarrow>
          bnd (fd_write f ((if c = CHR ''/'' then cs else camid) @ [nl]))
            (\<lambda>_. write_cam_ids_loop f rest))"

definition write_cam_ids :: "mcsc \<Rightarrow> string list \<Rightarrow> unit action" where
  "write_cam_ids self cam_ids =
     (let f = path_join (out_dirname self) ''camera_order.txt''
      in bnd (open_w f) (\<lambda>_. write_cam_ids_loop f cam_ids))"

definition read_calibration_names :: "string \<Rightarrow> world \<Rightarrow> error + string list" where
  "read_calibration_names flydra_cal_src w =
     (case files w (path_join flydra_cal_src ''camera_order.txt'') of
        None \<Rightarrow> Inl IOError
      | Some content \<Rightarrow>
          (let cam_ids = split_on nl content
           in if cam_ids = [] then Inl IndexError
              else if last cam_ids = [] then Inr (butlast cam_ids)
              else Inr cam_ids))"

subsection \<open>\<open>get_camera_names_map\<close>\<close>

text \<open>The template \<open>"basename%d.rad"\<close> applied to an index.\<close>

definition tmpl :: "nat \<Rightarrow> string" where
  "tmpl k = ''basename'' @ str_nat k @ ''.rad''"

fun names_loop :: "nat \<Rightarrow> string list \<Rightarrow> (string \<rightharpoonup> string) \<Rightarrow> (string \<rightharpoonup> string)" where
  "names_loop i [] result = result"
| "names_loop i (name # rest) result = names_loop (Suc i) rest (result(name \<mapsto> tmpl (i + 1)))"

definition get_camera_names_map :: "string \<Rightarrow> string \<Rightarrow> world \<Rightarrow> error + (string \<rightharpoonup> string)" where
  "get_camera_names_map dirname filetype w =
     (if filetype = ''rad''
      then (case read_calibration_names dirname w of
              Inl e \<Rightarrow> Inl e
            | Inr names \<Rightarrow> Inr (names_loop 0 names Map.empty))
      else Inl ValueError)"

subsection \<open>\<open>_write_cfg\<close>\<close>

definition cfg_file :: "string \<Rightarrow> int \<Rightarrow> int \<Rightarrow> int \<Rightarrow> int \<Rightarrow> int \<Rightarrow> string" where
  "cfg_file basename' num_cameras num_cameras_fill undo_radial square_pixels use_nth_frame' =
     concat (map (\<lambda>l. l @ [nl])
       [''[Files]'',
        ''Basename: '' @ basename',
        ''Image-Extension: jpg'',
        [],
        ''[Images]'',
        ''Subpix: 0.5'',
        [],
        ''[Calibration]'',
        ''Num-Cameras: '' @ str_int num_cameras,
        ''Num-Projectors: 0'',
        ''Nonlinear-Parameters: 50    0    1    0    0    0'',
        ''Nonlinear-Update: 1   0   1   0   0   0'',
        ''Initial-Tolerance: 10'',
        ''Do-Global-Iterations: 0'',
        ''Global-Iteration-Threshold: 0.5'',
        ''Global-Iteration-Max: 5'',
        ''Num-Cameras-Fill: '' @ str_int num_cameras_fill,
        ''Do-Bundle-Adjustment: 1'',
        ''Undo-Radial: '' @ str_int undo_radial,
        ''Min-Points-Value: 30'',
        ''N-Tuples: 3'',
        ''Square-Pixels: '' @ str_int square_pixels,
        ''Use-Nth-Frame: '' @ str_int use_nth_frame'])"

text \<open>
  The two \<open>LOG.debug\<close> calls that pass the value as a logging argument hand the logger
  the message text alone; the logger does not raise to its caller.
\<close>

definition write_cfg :: "mcsc \<Rightarrow> string list \<Rightarrow> int \<Rightarrow> int \<Rightarrow> int \<Rightarrow> unit action" where
  "write_cfg self cam_ids radial_distortion square_pixels num_cameras_fill =
     (let num_cameras_fill =
            (if num_cameras_fill < 0 \<or> num_cameras_fill > int (length cam_ids)
             then int (length cam_ids) else num_cameras_fill);
          f = path_join (out_dirname self) ''multicamselfcal.cfg''
      in bnd (open_w f) (\<lambda>_.
         bnd (fd_write f (cfg_file (basename self) (int (length cam_ids)) num_cameras_fill
                            radial_distortion square_pixels (use_nth_frame self))) (\<lambda>_.
         bnd (LOG (''calibrate cams: '' @ join '','' cam_ids)) (\<lambda>_.
         bnd (LOG ''undo radial: '') (\<lambda>_.
         bnd (LOG ''num_cameras_fill: '') (\<lambda>_.
         LOG (''wrote camera calibration directory: '' @ out_dirname self)))))))"

subsection \<open>\<open>create_calibration_directory\<close>\<close>

text \<open>The shape tuple of a 2-dimensional array.\<close>

definition shape :: "'a ndarray \<Rightarrow> nat list" where
  "shape arr =
     (case arr of
        BoolArray rows \<Rightarrow> [length rows, if rows = [] then 0 else length (hd rows)]
      | NumArray rows \<Rightarrow> [length rows, if rows = [] then 0 else length (hd rows)])"

text \<open>
  \<open>fmt % values\<close> for a format \<open>fmt\<close> that is a text followed by one \<open>%r\<close>, with a
  tuple on the right: the items of the tuple are the arguments, and a format with one
  conversion takes exactly one (\<open>TypeError: not all arguments converted\<close> otherwise).
  The items are given by their \<open>repr\<close>.
\<close>

definition format_r_tuple :: "string \<Rightarrow> string list \<Rightarrow> error + string" where
  "format_r_tuple text items =
     (case items of [item] \<Rightarrow> Inr (text @ item) | _ \<Rightarrow> Inl TypeError)"

text \<open>
  \<open>cam_calibrations\<close> is \<open>None\<close> or a dictionary (\<open>{}\<close> when the caller leaves it out).
  Of \<open>Res\<close> the \<open>'Res %r'\<close> record needs its \<open>repr\<close>, a parameter.
\<close>

definition create_calibration_directory ::
  "('i \<Rightarrow> string) \<Rightarrow> ('p \<Rightarrow> string) \<Rightarrow> ('r \<Rightarrow> string) \<Rightarrow> ('r ndarray \<Rightarrow> string) \<Rightarrow>
   mcsc \<Rightarrow> string list \<Rightarrow> 'i ndarray \<Rightarrow> 'p ndarray \<Rightarrow> 'r ndarray \<Rightarrow> string dict option \<Rightarrow>
   int \<Rightarrow> int \<Rightarrow> int \<Rightarrow> unit action" where
  "create_calibration_directory repr_i repr_p repr_r repr_Res self cam_ids IdMat points Res
       cam_calibrations radial_distortion square_pixels num_cameras_fill =
     (if len_array Res \<noteq> length cam_ids then raise AssertionError
      else if cam_calibrations \<noteq> None \<and> length cam_ids \<noteq> len_dict (the cam_calibrations)
      then raise AssertionError
      else
        bnd (lift (format_r_tuple ''points.shape '' (map str_nat (shape points)))) (\<lambda>m1.
        bnd (LOG m1) (\<lambda>_.
        bnd (lift (format_r_tuple ''IdMat.shape '' (map str_nat (shape IdMat)))) (\<lambda>m2.
        bnd (LOG m2) (\<lambda>_.
        bnd (LOG (''Res '' @ repr_Res Res)) (\<lambda>_.
        bnd (write_cam_ids self cam_ids) (\<lambda>_.
        bnd (if cam_calibrations \<noteq> None \<and> the cam_calibrations \<noteq> []
             then LOG ''write cam calib to rad file''
             else ret ()) (\<lambda>_.
        bnd (save_ascii_matrix repr_r Res (Path (path_join (out_dirname self) ''Res.dat''))) (\<lambda>_.
        bnd (save_ascii_matrix repr_i IdMat (Path (path_join (out_dirname self) ''IdMat.dat''))) (\<lambda>_.
        bnd (save_ascii_matrix repr_p points (Path (path_join (out_dirname self) ''points.dat''))) (\<lambda>_.
        write_cfg self cam_ids radial_distortion square_pixels num_cameras_fill)))))))))))"

subsection \<open>\<open>create_from_cams\<close>\<close>

text \<open>
  What the module takes from outside: numpy's \<open>repr\<close> of a float64 and of a resolution
  entry, and \<open>camera_calibration_yaml_to_radfile\<close> of the \<open>formats\<close> module, taken as
  the conversion of the source text into the text of the radial file.
\<close>

record 'r lib =
  repr_float :: "npfloat \<Rightarrow> string"
  repr_res :: "'r \<Rightarrow> string"
  yaml_to_rad :: "string \<Rightarrow> error + string"

definition camera_calibration_yaml_to_radfile :: "'r lib \<Rightarrow> string \<Rightarrow> string \<Rightarrow> unit action" where
  "camera_calibration_yaml_to_radfile L url dest =
     (\<lambda>w. case files w url of
             None \<Rightarrow> (Inl IOError, w)
           | Some src \<Rightarrow>
               (case yaml_to_rad L src of
                  Inl e \<Rightarrow> (Inl e, w)
                | Inr out \<Rightarrow> (Inr (), w\<lparr>files := (files w)(dest \<mapsto> out)\<rparr>)))"

text \<open>
  \<open>shutil.copy(src, dst)\<close>: \<open>shutil.Error\<close> when source and destination are the same
  file, \<open>IOError\<close> when the source cannot be opened.
\<close>

definition shutil_copy :: "string \<Rightarrow> string \<Rightarrow> unit action" where
  "shutil_copy src dst =
     (\<lambda>w. if src = dst then (Inl ShutilError, w)
          else (case files w src of
                  None \<Rightarrow> (Inl IOError, w)
                | Some content \<Rightarrow> (Inr (), w\<lparr>files := (files w)(dst \<mapsto> content)\<rparr>)))"

definition isfile :: "string \<Rightarrow> world \<Rightarrow> bool" where
  "isfile path w = (files w path \<noteq> None)"

text \<open>\<open>list.remove(x)\<close>: drops the first occurrence, \<open>ValueError\<close> when there is none.\<close>

fun list_remove :: "'a \<Rightarrow> 'a list \<Rightarrow> error + 'a list" where
  "list_remove x [] = Inl ValueError"
| "list_remove x (y # ys) =
     (if x = y then Inr ys
      else (case list_remove x ys of Inl e \<Rightarrow> Inl e | Inr zs \<Rightarrow> Inr (y # zs)))"

text \<open>\<open>map(cam_ids.remove, cams_to_remove)\<close>.\<close>

fun remove_each :: "'a list \<Rightarrow> 'a list \<Rightarrow> error + 'a list" where
  "remove_each [] cam_ids = Inr cam_ids"
| "remove_each (cam # rest) cam_ids =
     (case list_remove cam cam_ids of Inl e \<Rightarrow> Inl e | Inr cam_ids' \<Rightarrow> remove_each rest cam_ids')"

text \<open>The first loop: the cameras with no points.\<close>

definition nvalid :: "npfloat list list \<Rightarrow> nat" where
  "nvalid arr = count_nonzero (map (map nan_to_num) arr)"

fun cams_to_remove_loop :: "npfloat list list dict \<Rightarrow> string list \<Rightarrow> string list \<Rightarrow> string list action" where
  "cams_to_remove_loop cam_points [] cams_to_remove = ret cams_to_remove"
| "cams_to_remove_loop cam_points (cam # rest) cams_to_remove =
     bnd (lift (getitem cam_points cam)) (\<lambda>pts.
     bnd (lift (np_array pts)) (\<lambda>arr.
       if nvalid arr = 0
       then bnd (LOG (''removing cam '' @ cam @ '' - no points detected'')) (\<lambda>_.
              cams_to_remove_loop cam_points rest (cams_to_remove @ [cam]))
       else cams_to_remove_loop cam_points rest cams_to_remove))"

text \<open>The path of the radial file of the camera at 0-based position \<open>i\<close>.\<close>

definition rad_dest :: "mcsc \<Rightarrow> nat \<Rightarrow> string" where
  "rad_dest self i = out_dirname self @ ''/'' @ basename self @ str_nat (i + 1) @ ''.rad''"

text \<open>
  The end of the body of the second loop: the radial file of camera \<open>cam\<close> at position
  \<open>i\<close>, when a calibration source is supplied for it.
\<close>

definition write_rad :: "'r lib \<Rightarrow> mcsc \<Rightarrow> string dict \<Rightarrow> nat \<Rightarrow> string \<Rightarrow> unit action" where
  "write_rad L self cam_calibrations i cam =
     (if contains cam_calibrations cam
      then bnd (lift (getitem cam_calibrations cam)) (\<lambda>url. (\<lambda>w.
             if \<not> isfile url w then (Inl AssertionError, w)
             else
               (let dest = rad_dest self i
                in if endswith url ''.yaml''
                   then camera_calibration_yaml_to_radfile L url dest w
                   else if endswith url ''.rad''
                   then shutil_copy url dest w
                   else (Inl (Exception (''Calibration format '' @ url @ '' not supported'')), w))))
      else ret ())"

text \<open>
  The body of the second loop for camera \<open>cam\<close> at position \<open>i\<close>.  \<open>points.shape[1]\<close>
  raises on the 1-dimensional array that an empty list of points gives.
\<close>

definition write_cam ::
  "'r lib \<Rightarrow> mcsc \<Rightarrow> 'r list dict \<Rightarrow> npfloat list list dict \<Rightarrow> string dict \<Rightarrow>
   nat \<Rightarrow> string \<Rightarrow> unit action" where
  "write_cam L self cam_resolutions cam_points cam_calibrations i cam =
     bnd (lift (getitem cam_points cam)) (\<lambda>pts.
     bnd (lift (np_array pts)) (\<lambda>points.
     if points = [] then raise IndexError
     else if length (hd points) \<noteq> 2 then raise AssertionError
     else
       (let points = T (hstack_ones points);
            found = found_row (points ! 0)
        in bnd (lift (getitem cam_resolutions cam)) (\<lambda>res.
           if length res \<noteq> 2 then raise ValueError
           else
             bnd (save_ascii_matrix (repr_res L) (NumArray [res])
                    (Stream (path_join (out_dirname self) ''Res.dat''))) (\<lambda>_.
             bnd (save_ascii_matrix (repr_float L) (NumArray [found])
                    (Stream (path_join (out_dirname self) ''IdMat.dat''))) (\<lambda>_.
             bnd (save_ascii_matrix (repr_float L) (NumArray points)
                    (Stream (path_join (out_dirname self) ''points.dat''))) (\<lambda>_.
             write_rad L self cam_calibrations i cam)))))))"

fun cams_loop ::
  "'r lib \<Rightarrow> mcsc \<Rightarrow> 'r list dict \<Rightarrow> npfloat list list dict \<Rightarrow> string dict \<Rightarrow>
   nat \<Rightarrow> string list \<Rightarrow> unit action" where
  "cams_loop L self cam_resolutions cam_points cam_calibrations i [] = ret ()"
| "cams_loop L self cam_resolutions cam_points cam_calibrations i (cam # rest) =
     bnd (write_cam L self cam_resolutions cam_points cam_calibrations i cam) (\<lambda>_.
       cams_loop L self cam_resolutions cam_points cam_calibrations (Suc i) rest)"

definition create_from_cams ::
  "'r lib \<Rightarrow> mcsc \<Rightarrow> string list \<Rightarrow> 'r list dict \<Rightarrow> npfloat list list dict \<Rightarrow> string dict \<Rightarrow>
   int \<Rightarrow> unit action" where
  "create_from_cams L self cam_ids cam_resolutions cam_points cam_calibrations num_cameras_fill =
     (let cam_ids = (if cam_ids = [] then keys cam_points else cam_ids)
      in bnd (cams_to_remove_loop cam_points cam_ids []) (\<lambda>cams_to_remove.
         bnd (lift (remove_each cams_to_remove cam_ids)) (\<lambda>cam_ids.
         bnd (write_cam_ids self cam_ids) (\<lambda>_.
         bnd (open_w (path_join (out_dirname self) ''Res.dat'')) (\<lambda>_.
         bnd (open_w (path_join (out_dirname self) ''IdMat.dat'')) (\<lambda>_.
         bnd (open_w (path_join (out_dirname self) ''points.dat'')) (\<lambda>_.
         bnd (cams_loop L self cam_resolutions cam_points cam_calibrations 0 cam_ids) (\<lambda>_.
         bnd (write_cfg self cam_ids
                (if list_all (contains cam_calibrations) cam_ids then 1 else 0) 1
                num_cameras_fill) (\<lambda>_.
         LOG (''dropped cams: '' @ join '','' cams_to_remove))))))))))"

section \<open>Notions used to state the properties\<close>

text \<open>
  The test of the first loop of \<open>create_from_cams\<close>: the camera has an entry in
  \<open>cam_points\<close> and \<open>np.count_nonzero(np.nan_to_num(...))\<close> of it is not zero.
\<close>

definition has_points :: "npfloat list list dict \<Rightarrow> string \<Rightarrow> bool" where
  "has_points cam_points cam =
     (case getitem cam_points cam of Inl e \<Rightarrow> False | Inr pts \<Rightarrow> nvalid pts \<noteq> 0)"

text \<open>The camera id as \<open>_write_cam_ids\<close> records it.\<close>

definition recorded :: "string \<Rightarrow> string" where
  "recorded camid = (if camid \<noteq> [] \<and> hd camid = CHR ''/'' then tl camid else camid)"

text \<open>
  An action touches at most the files in \<open>S\<close>; an action removes no file and no log
  record; an action raises in every world.
\<close>

definition touches :: "string set \<Rightarrow> 'a action \<Rightarrow> bool" where
  "touches S m = (\<forall>w p. p \<notin> S \<longrightarrow> files (snd (m w)) p = files w p)"

definition keeps :: "'a action \<Rightarrow> bool" where
  "keeps m = (\<forall>w. (\<forall>p. files w p \<noteq> None \<longrightarrow> files (snd (m w)) p \<noteq> None) \<and>
                   set (logged w) \<subseteq> set (logged (snd (m w))))"

definition fails :: "'a action \<Rightarrow> bool" where
  "fails m = (\<forall>w. \<exists>e. fst (m w) = Inl e)"

text \<open>Every world an action returns normally in satisfies \<open>Q\<close>.\<close>

definition ensures :: "(world \<Rightarrow> bool) \<Rightarrow> 'a action \<Rightarrow> bool" where
  "ensures Q m = (\<forall>w x w'. m w = (Inr x, w') \<longrightarrow> Q w')"

text \<open>
  \<open>create_from_cams\<close> from \<open>self._write_cam_ids(cam_ids)\<close> on, for the camera list
  and the list of removed cameras that the first loop leaves.
\<close>

definition write_directory ::
  "'r lib \<Rightarrow> mcsc \<Rightarrow> 'r list dict \<Rightarrow> npfloat list list dict \<Rightarrow> string dict \<Rightarrow> int \<Rightarrow>
   string list \<Rightarrow> string list \<Rightarrow> unit action" where
  "write_directory L self cam_resolutions cam_points cam_calibrations num_cameras_fill
       cam_ids cams_to_remove =
     bnd (write_cam_ids self cam_ids) (\<lambda>_.
     bnd (open_w (path_join (out_dirname self) ''Res.dat'')) (\<lambda>_.
     bnd (open_w (path_join (out_dirname self) ''IdMat.dat'')) (\<lambda>_.
     bnd (open_w (path_join (out_dirname self) ''points.dat'')) (\<lambda>_.
     bnd (cams_loop L self cam_resolutions cam_points cam_calibrations 0 cam_ids) (\<lambda>_.
     bnd (write_cfg self cam_ids
            (if list_all (contains cam_calibrations) cam_ids then 1 else 0) 1
            num_cameras_fill) (\<lambda>_.
     LOG (''dropped cams: '' @ join '','' cams_to_remove)))))))"

section \<open>Running actions\<close>

lemma bnd_ret [simp]: "bnd (ret x) f = f x"
  by (simp add: bnd_def ret_def)

lemma bnd_raise [simp]: "bnd (raise e) f = raise e"
  by (simp add: bnd_def raise_def)

lemma bnd_lift_Inr [simp]: "bnd (lift (Inr x)) f = f x"
  by (simp add: bnd_def lift_def)

lemma bnd_lift_Inl [simp]: "bnd (lift (Inl e)) f = raise e"
  by (simp add: bnd_def lift_def raise_def)

lemma bnd_open_w: "bnd (open_w p) f w = f () (w\<lparr>files := (files w)(p \<mapsto> [])\<rparr>)"
  by (simp add: bnd_def open_w_def)

lemma bnd_fd_write:
  "bnd (fd_write p s) f w =
     f () (w\<lparr>files := (files w)(p \<mapsto> (case files w p of None \<Rightarrow> s | Some old \<Rightarrow> old @ s))\<rparr>)"
  by (simp add: bnd_def fd_write_def)

lemma bnd_LOG: "bnd (LOG m) f w = f () (w\<lparr>logged := logged w @ [m]\<rparr>)"
  by (simp add: bnd_def LOG_def)

section \<open>The visibility row\<close>

lemma float_max_ge_1: "1 \<le> float_max"
proof -
  have "(2::real) ^ 971 * 2 \<le> 2 ^ 971 * 2 ^ 53"
    by (intro mult_left_mono) simp_all
  then have "(2::real) ^ 971 + 2 ^ 971 \<le> 2 ^ 1024"
    by (simp add: power_add[symmetric])
  moreover have "(1::real) \<le> 2 ^ 971"
    by simp
  ultimately show ?thesis
    unfolding float_max_def by linarith
qed

lemma first_coordinate_row:
  "points \<noteq> [] \<Longrightarrow> rectangular points \<Longrightarrow> length (hd points) = 2 \<Longrightarrow>
   T (hstack_ones points) ! 0 = map (\<lambda>row. row ! 0) points"
  by (cases points) (auto simp: T_def hstack_ones_def rectangular_def list_all_iff nth_append upt_rec)

text \<open>
  C1, as the code has it.  The row \<open>create_from_cams\<close> derives the visibility from is
  the first coordinate of every observation.  The visibility row has one entry per
  observation; a NaN and a zero give 0, and an entry that is at least 1, or plus
  infinity, gives 1.  The row derived from \<open>[5.0, NaN, 0.0]\<close> is \<open>[1, 0, 0]\<close>.
  (Nothing is said here of the entries below 1 that are not zero.)
\<close>

theorem found_row_visibility:
  "i < length row \<Longrightarrow>
     length (found_row row) = length row \<and>
     (row ! i = NaN \<or> row ! i = Fin 0 \<longrightarrow> found_row row ! i = Fin 0) \<and>
     (row ! i = PInf \<or> (\<exists>x. 1 \<le> x \<and> row ! i = Fin x) \<longrightarrow> found_row row ! i = Fin 1) \<and>
     found_row [Fin 5, NaN, Fin 0] = [Fin 1, Fin 0, Fin 0] \<and>
     (points \<noteq> [] \<and> rectangular points \<and> length (hd points) = 2 \<longrightarrow>
        found_row (T (hstack_ones points) ! 0) = found_row (map (\<lambda>row. row ! 0) points))"
  using float_max_ge_1 by (auto simp: found_row_def first_coordinate_row)

theorem found_row_visibility_witness:
  "found_row [Fin 5, NaN, Fin 0] ! 1 = Fin 0 \<and> found_row [Fin 5, NaN, Fin 0] ! 0 = Fin 1 \<and>
   found_row (T (hstack_ones [[Fin 5, Fin 1], [NaN, NaN], [Fin 0, Fin 2]]) ! 0) =
     [Fin 1, Fin 0, Fin 0]"
  using found_row_visibility
          [of 1 "[Fin 5, NaN, Fin 0]" "[[Fin 5, Fin 1], [NaN, NaN], [Fin 0, Fin 2]]"]
        found_row_visibility
          [of 0 "[Fin 5, NaN, Fin 0]" "[[Fin 5, Fin 1], [NaN, NaN], [Fin 0, Fin 2]]"]
  by (simp add: rectangular_def)

text \<open>
  C1 as stated fails: plus infinity is not finite and its entry is 1, and one half is
  finite and not zero and its entry is one half.
\<close>

theorem found_row_counterexample:
  "found_row [PInf, Fin (1 / 2)] = [Fin 1, Fin (1 / 2)] \<and>
   found_row [PInf, Fin (1 / 2)] \<noteq> [Fin 0, Fin 1]"
  by (simp add: found_row_def float_max_def)

section \<open>The matrix codec: lines, tokens and rows\<close>

lemma space_ne_nl [simp]: "CHR '' '' \<noteq> nl" "nl \<noteq> CHR '' ''"
  by (simp_all add: nl_def)

lemma readlines_line:
  "nl \<notin> set l \<Longrightarrow> readlines (l @ nl # rest) = (l @ [nl]) # readlines rest"
  by (induction l) auto

lemma readlines_concat:
  "\<forall>l \<in> set ls. nl \<notin> set l \<Longrightarrow>
   readlines (concat (map (\<lambda>l. l @ [nl]) ls)) = map (\<lambda>l. l @ [nl]) ls"
  by (induction ls) (auto simp: readlines_line)

lemma readlines_nonempty: "[] \<notin> set (readlines s)"
  by (induction s) (auto split: list.splits)

lemma write_rows_eq:
  "write_rows repr rows buf = buf @ concat (map (\<lambda>row. join '' '' (map repr row) @ [nl]) rows)"
  by (induction rows arbitrary: buf) auto

lemma load_lines_eq:
  "[] \<notin> set ls \<Longrightarrow>
   load_lines ls acc = Inr (acc @ map strip (filter (\<lambda>l. hd l \<noteq> CHR ''#'') ls))"
  by (induction ls arbitrary: acc) (auto split: list.splits)

lemma split_ws_dropWhile: "split_ws (dropWhile isspace s) = split_ws s"
  by (induction s) auto

lemma split_ws_snoc_space: "isspace c \<Longrightarrow> split_ws (s @ [c]) = split_ws s"
  by (induction s) (auto simp: hd_append)

lemma split_ws_rev_dropWhile: "split_ws (rev (dropWhile isspace (rev s))) = split_ws s"
proof (induction s rule: rev_induct)
  case Nil
  then show ?case by simp
next
  case (snoc x xs)
  then show ?case by (simp add: split_ws_snoc_space)
qed

text \<open>\<open>line.strip()\<close> before \<open>line.split()\<close> changes nothing.\<close>

lemma split_ws_strip: "split_ws (strip s) = split_ws s"
  by (simp add: strip_def split_ws_rev_dropWhile split_ws_dropWhile)

lemma split_ws_token:
  "token t \<Longrightarrow> rest = [] \<or> isspace (hd rest) \<Longrightarrow> split_ws (t @ rest) = t # split_ws rest"
proof (induction t)
  case Nil
  then show ?case by (simp add: token_def)
next
  case (Cons c t)
  show ?case
  proof (cases t)
    case Nil
    with Cons.prems show ?thesis by (auto simp: token_def)
  next
    case (Cons d t')
    with Cons.prems have "token t" by (simp add: token_def)
    from Cons.IH[OF this Cons.prems(2)] Cons.prems Cons show ?thesis
      by (auto simp: token_def)
  qed
qed

lemma split_ws_join:
  "list_all token ts \<Longrightarrow> split_ws (join '' '' ts @ [nl]) = ts"
proof (induction ts)
  case Nil
  then show ?case by (simp add: isspace_def nl_def)
next
  case (Cons x ts)
  show ?case
  proof (cases ts)
    case Nil
    with Cons.prems show ?thesis
      using split_ws_token[of x "[nl]"] by (simp add: isspace_def nl_def)
  next
    case (Cons y ys)
    with Cons.prems Cons.IH show ?thesis
      using split_ws_token[of x "'' '' @ join '' '' (y # ys) @ [nl]"]
      by (simp add: isspace_def)
  qed
qed

lemma map_float_ok:
  "list_all (\<lambda>v. pfloat (repr v) = Some (f v)) row \<Longrightarrow>
   map_float pfloat (map repr row) = Inr (map f row)"
  by (induction row) auto

lemma map_float_bad:
  "t \<in> set ts \<Longrightarrow> pfloat t = None \<Longrightarrow> map_float pfloat ts = Inl ValueError"
proof (induction ts)
  case Nil
  then show ?case by simp
next
  case (Cons a ts)
  show ?case
  proof (cases "pfloat a")
    case None
    then show ?thesis by simp
  next
    case (Some v)
    with Cons.prems have "t \<in> set ts" by auto
    with Cons.IH Cons.prems Some show ?thesis by simp
  qed
qed

lemma map_float_good:
  "\<forall>t \<in> set ts. pfloat t \<noteq> None \<Longrightarrow>
   map_float pfloat ts = Inr (map (\<lambda>t. the (pfloat t)) ts)"
  by (induction ts) (auto split: option.splits sum.splits)

lemma parse_lines_bad:
  "\<exists>l \<in> set ls. \<exists>t \<in> set (split_ws l). pfloat t = None \<Longrightarrow>
   parse_lines pfloat ls = Inl ValueError"
proof (induction ls)
  case Nil
  then show ?case by simp
next
  case (Cons l ls)
  show ?case
  proof (cases "\<exists>t \<in> set (split_ws l). pfloat t = None")
    case True
    then show ?thesis by (auto simp: map_float_bad)
  next
    case False
    with Cons.prems have "\<exists>l \<in> set ls. \<exists>t \<in> set (split_ws l). pfloat t = None" by auto
    with Cons.IH have "parse_lines pfloat ls = Inl ValueError" by simp
    with False show ?thesis by (simp add: map_float_good)
  qed
qed

lemma load_text_eq:
  "load_text pfloat content =
     parse_lines pfloat (map strip (filter (\<lambda>l. hd l \<noteq> CHR ''#'') (readlines content)))"
  by (simp add: load_text_def load_lines_eq readlines_nonempty)

lemma parse_lines_rows:
  "list_all (list_all (\<lambda>v. token (repr v) \<and> pfloat (repr v) = Some (f v))) rows \<Longrightarrow>
   parse_lines pfloat (map (\<lambda>row. strip (join '' '' (map repr row) @ [nl])) rows) =
     Inr (map (map f) rows)"
proof (induction rows)
  case Nil
  then show ?case by simp
next
  case (Cons row rows)
  from Cons.prems have tok: "list_all token (map repr row)"
    and ok: "list_all (\<lambda>v. pfloat (repr v) = Some (f v)) row"
    by (simp_all add: list_all_iff)
  from Cons show ?case
    by (simp add: split_ws_strip split_ws_join[OF tok] map_float_ok[OF ok])
qed

lemma token_no_nl: "token t \<Longrightarrow> nl \<notin> set t"
  by (auto simp: token_def list_all_iff isspace_def nl_def)

lemma join_no_nl: "list_all token ts \<Longrightarrow> nl \<notin> set (join '' '' ts)"
proof (induction ts)
  case Nil
  then show ?case by simp
next
  case (Cons x ts)
  then show ?case by (cases ts) (auto simp: token_no_nl)
qed

lemma hd_join_line:
  "list_all token ts \<Longrightarrow> hd (join '' '' ts @ [nl]) = (if ts = [] then nl else hd (hd ts))"
proof (cases ts)
  case Nil
  then show ?thesis by simp
next
  case (Cons x xs)
  assume "list_all token ts"
  with Cons have "x \<noteq> []" by (simp add: token_def)
  with Cons show ?thesis by (cases xs) simp_all
qed

lemma load_text_rows:
  assumes "list_all (list_all (\<lambda>v. number_text (repr v) \<and> pfloat (repr v) = Some (f v))) rows"
  shows "load_text pfloat (write_rows repr rows []) = Inr (map (map f) rows)"
proof -
  let ?line = "\<lambda>row. join '' '' (map repr row) @ [nl]"
  from assms have toks: "\<forall>row \<in> set rows. list_all token (map repr row)"
    by (auto simp: list_all_iff number_text_def)
  from assms have nohash: "\<forall>row \<in> set rows. row \<noteq> [] \<longrightarrow> hd (repr (hd row)) \<noteq> CHR ''#''"
    by (auto simp: list_all_iff number_text_def)
  have "readlines (write_rows repr rows []) = map ?line rows"
    using toks readlines_concat[of "map (\<lambda>row. join '' '' (map repr row)) rows"]
    by (simp add: write_rows_eq join_no_nl comp_def)
  moreover have "filter (\<lambda>l. hd l \<noteq> CHR ''#'') (map ?line rows) = map ?line rows"
  proof (rule filter_True, clarsimp)
    fix row assume r: "row \<in> set rows" and h: "hd (join '' '' (map repr row) @ [nl]) = CHR ''#''"
    from toks r have t: "list_all token (map repr row)" by simp
    from h hd_join_line[OF t] nohash r show False
      by (cases row) (auto simp: nl_def hd_map split: if_splits)
  qed
  moreover have "parse_lines pfloat (map strip (map ?line rows)) = Inr (map (map f) rows)"
    using parse_lines_rows[of repr pfloat f rows] assms
    by (simp add: comp_def number_text_def list_all_iff)
  ultimately show ?thesis by (simp add: load_text_eq)
qed

lemma saved_file:
  "files (snd (save_ascii_matrix repr arr (Path p) w)) p = Some (matrix_text repr arr)"
  by (simp add: save_ascii_matrix_def bnd_def open_w_def fd_write_def)

lemma str_nat_0_1 [simp]: "str_nat 0 = ''0''" "str_nat (Suc 0) = ''1''"
  by (simp_all add: str_nat.simps[of 0] str_nat.simps[of "Suc 0"] digit_def)

lemma number_text_0_1 [simp]: "number_text ''0''" "number_text ''1''"
  by (simp_all add: number_text_def token_def isspace_def)

text \<open>
  C2.  A rectangular array saved to a path and loaded again comes back with every
  element \<open>v\<close> replaced by \<open>f v\<close>, the value \<open>float\<close> reads from the text \<open>repr v\<close>: the
  values up to what their text carries.  A boolean array comes back as the values
  \<open>float\<close> reads from \<open>1\<close> and \<open>0\<close>, for true and false.
\<close>

theorem save_load_roundtrip:
  assumes "rectangular rows"
    and "list_all (list_all (\<lambda>v. number_text (repr v) \<and> pfloat (repr v) = Some (f v))) rows"
    and "rectangular brows"
    and "pfloat ''1'' = Some one" and "pfloat ''0'' = Some zero"
  shows "load_ascii_matrix pfloat p (snd (save_ascii_matrix repr (NumArray rows) (Path p) w)) =
           Inr (map (map f) rows) \<and>
         load_ascii_matrix pfloat p (snd (save_ascii_matrix repr (BoolArray brows) (Path p) w)) =
           Inr (map (map (\<lambda>b. if b then one else zero)) brows)"
proof
  show "load_ascii_matrix pfloat p (snd (save_ascii_matrix repr (NumArray rows) (Path p) w)) =
          Inr (map (map f) rows)"
    using load_text_rows[OF assms(2)]
    by (simp add: load_ascii_matrix_def saved_file matrix_text_def)
next
  let ?g = "\<lambda>n::nat. if n = 0 then zero else one"
  have "list_all (list_all (\<lambda>v. number_text (str_nat v) \<and> pfloat (str_nat v) = Some (?g v)))
          (astype_uint8 brows)"
    using assms(4,5)
    by (auto simp: astype_uint8_def list_all_iff)
  from load_text_rows[OF this]
  have "load_text pfloat (write_rows str_nat (astype_uint8 brows) []) =
          Inr (map (map (\<lambda>b. if b then one else zero)) brows)"
    by (simp add: astype_uint8_def comp_def if_distrib cong: if_cong)
  then show "load_ascii_matrix pfloat p (snd (save_ascii_matrix repr (BoolArray brows) (Path p) w)) =
          Inr (map (map (\<lambda>b. if b then one else zero)) brows)"
    by (simp add: load_ascii_matrix_def saved_file matrix_text_def)
qed

text \<open>
  The round trip on a 2 by 2 array of small unsigned integers and on a 1 by 2 boolean
  array, with \<open>float\<close> cut down to the two texts that occur.
\<close>

theorem save_load_roundtrip_witness:
  "load_ascii_matrix (\<lambda>s. if s = ''1'' then Some (1::real) else if s = ''0'' then Some 0 else None)
     ''m.dat''
     (snd (save_ascii_matrix str_nat (NumArray [[1, 0], [0, 1::nat]]) (Path ''m.dat'')
        \<lparr>files = Map.empty, logged = []\<rparr>)) = Inr [[1, 0], [0, 1]] \<and>
   load_ascii_matrix (\<lambda>s. if s = ''1'' then Some (1::real) else if s = ''0'' then Some 0 else None)
     ''m.dat''
     (snd (save_ascii_matrix str_nat (BoolArray [[True, False]]) (Path ''m.dat'')
        \<lparr>files = Map.empty, logged = []\<rparr>)) = Inr [[1, 0]]"
  using save_load_roundtrip
    [of "[[1, 0], [0, 1::nat]]" str_nat
        "\<lambda>s. if s = ''1'' then Some (1::real) else if s = ''0'' then Some 0 else None"
        real "[[True, False]]" 1 0 "''m.dat''" "\<lparr>files = Map.empty, logged = []\<rparr>"]
  by (simp add: rectangular_def)

text \<open>
  C7, as the code has it.  A file with a line that does not start with \<open>#\<close> and has a
  token \<open>float\<close> rejects makes \<open>load_ascii_matrix\<close> raise \<open>ValueError\<close>, the format
  error.  An empty file does not: it loads as the empty array.
\<close>

theorem load_ascii_matrix_format_error:
  "files w filename = Some content \<Longrightarrow>
     (line \<in> set (readlines content) \<and> hd line \<noteq> CHR ''#'' \<and>
      tok \<in> set (split_ws (strip line)) \<and> pfloat tok = None
        \<longrightarrow> load_ascii_matrix pfloat filename w = Inl ValueError) \<and>
     (content = [] \<longrightarrow> load_ascii_matrix pfloat filename w = Inr [])"
proof (intro conjI impI)
  assume f: "files w filename = Some content"
  assume "line \<in> set (readlines content) \<and> hd line \<noteq> CHR ''#'' \<and>
      tok \<in> set (split_ws (strip line)) \<and> pfloat tok = None"
  then have "\<exists>l \<in> set (map strip (filter (\<lambda>l. hd l \<noteq> CHR ''#'') (readlines content))).
               \<exists>t \<in> set (split_ws l). pfloat t = None"
    by auto
  from parse_lines_bad[OF this] f show "load_ascii_matrix pfloat filename w = Inl ValueError"
    by (simp add: load_ascii_matrix_def load_text_eq)
next
  assume "files w filename = Some content" and "content = []"
  then show "load_ascii_matrix pfloat filename w = Inr []"
    by (simp add: load_ascii_matrix_def load_text_def)
qed

theorem load_ascii_matrix_format_error_witness:
  "load_ascii_matrix (\<lambda>s. if s = ''1'' then Some (1::real) else None) ''m.dat''
     \<lparr>files = [''m.dat'' \<mapsto> ''1 x'' @ [nl]], logged = []\<rparr> = Inl ValueError \<and>
   load_ascii_matrix (\<lambda>s. if s = ''1'' then Some (1::real) else None) ''e.dat''
     \<lparr>files = [''e.dat'' \<mapsto> []], logged = []\<rparr> = Inr []"
  using load_ascii_matrix_format_error
    [of "\<lparr>files = [''m.dat'' \<mapsto> ''1 x'' @ [nl]], logged = []\<rparr>" "''m.dat''" "''1 x'' @ [nl]"
        "''1 x'' @ [nl]" "''x''" "\<lambda>s. if s = ''1'' then Some (1::real) else None"]
    load_ascii_matrix_format_error
    [of "\<lparr>files = [''e.dat'' \<mapsto> []], logged = []\<rparr>" "''e.dat''" "[]"
        "[]" "[]" "\<lambda>s. if s = ''1'' then Some (1::real) else None"]
  by (simp add: nl_def strip_def isspace_def)

text \<open>
  C7 as stated fails on the empty file: nothing is raised, whatever \<open>float\<close> accepts.
\<close>

theorem load_ascii_matrix_empty_counterexample:
  "load_ascii_matrix (\<lambda>s. None :: real option) ''e.dat''
     \<lparr>files = [''e.dat'' \<mapsto> []], logged = []\<rparr> = Inr []"
  by (simp add: load_ascii_matrix_def load_text_def)

section \<open>Actions applied to a world\<close>

lemma LOG_apply: "LOG m w = (Inr (), w\<lparr>logged := logged w @ [m]\<rparr>)"
  by (simp add: LOG_def)

lemma ret_apply: "ret x w = (Inr x, w)"
  by (simp add: ret_def)

lemma raise_apply: "raise e w = (Inl e, w)"
  by (simp add: raise_def)

section \<open>The camera order file\<close>

lemma write_cam_ids_loop_ok:
  "[] \<notin> set cam_ids \<Longrightarrow> files w f = Some buf \<Longrightarrow>
   write_cam_ids_loop f cam_ids w =
     (Inr (), w\<lparr>files := (files w)(f \<mapsto>
        buf @ concat (map (\<lambda>c. recorded c @ [nl]) cam_ids))\<rparr>)"
proof (induction cam_ids arbitrary: w buf)
  case Nil
  then show ?case by (simp add: ret_def fun_upd_idem)
next
  case (Cons camid rest)
  from Cons.prems obtain c cs where c: "camid = c # cs" by (cases camid) auto
  show ?case
  proof (cases "c = CHR ''/''")
    case True
    with Cons.prems c
      Cons.IH[of "w\<lparr>files := (files w)(f \<mapsto> buf @ cs @ [nl])\<rparr>" "buf @ cs @ [nl]"]
    show ?thesis by (simp add: bnd_fd_write fun_upd_def recorded_def cong: if_cong)
  next
    case False
    with Cons.prems c
      Cons.IH[of "w\<lparr>files := (files w)(f \<mapsto> buf @ camid @ [nl])\<rparr>" "buf @ camid @ [nl]"]
    show ?thesis by (simp add: bnd_fd_write fun_upd_def recorded_def cong: if_cong)
  qed
qed

lemma write_cam_ids_loop_err:
  "[] \<in> set cam_ids \<Longrightarrow> fst (write_cam_ids_loop f cam_ids w) = Inl IndexError"
proof (induction cam_ids arbitrary: w)
  case Nil
  then show ?case by simp
next
  case (Cons camid rest)
  then show ?case
    by (cases camid) (auto simp: raise_def bnd_fd_write)
qed

lemma write_cam_ids_ok:
  "[] \<notin> set cam_ids \<Longrightarrow>
   write_cam_ids self cam_ids w =
     (Inr (), w\<lparr>files := (files w)(path_join (out_dirname self) ''camera_order.txt'' \<mapsto>
        concat (map (\<lambda>c. recorded c @ [nl]) cam_ids))\<rparr>)"
  by (simp add: write_cam_ids_def Let_def bnd_open_w write_cam_ids_loop_ok[where buf = "[]"])

lemma split_on_line:
  "sep \<notin> set l \<Longrightarrow> split_on sep (l @ sep # rest) = l # split_on sep rest"
  by (induction l) auto

lemma split_on_lines:
  "\<forall>l \<in> set ls. sep \<notin> set l \<Longrightarrow>
   split_on sep (concat (map (\<lambda>l. l @ [sep]) ls)) = ls @ [[]]"
  by (induction ls) (auto simp: split_on_line)

lemma in_set_tl: "x \<in> set (tl c) \<Longrightarrow> x \<in> set c"
  by (cases c) auto

lemma recorded_no_nl: "nl \<notin> set c \<Longrightarrow> nl \<notin> set (recorded c)"
  by (auto simp: recorded_def dest: in_set_tl)

text \<open>
  C10, as the code has it.  \<open>_write_cam_ids\<close> raises \<open>IndexError\<close> on every list that
  holds an empty id.  On a list of non-empty ids it returns normally, and the file is
  the ids in order, each as \<open>recorded\<close> (without its leading \<open>/\<close> if it has one) and
  followed by a newline.  When in addition no id contains a newline, the lines of the
  file are these records, one line per camera.
\<close>

theorem write_cam_ids_lines:
  "([] \<in> set cam_ids \<longrightarrow> fst (write_cam_ids self cam_ids w) = Inl IndexError) \<and>
   ([] \<notin> set cam_ids \<longrightarrow>
      write_cam_ids self cam_ids w =
        (Inr (), w\<lparr>files := (files w)(path_join (out_dirname self) ''camera_order.txt'' \<mapsto>
           concat (map (\<lambda>c. recorded c @ [nl]) cam_ids))\<rparr>)) \<and>
   ([] \<notin> set cam_ids \<and> (\<forall>c \<in> set cam_ids. nl \<notin> set c) \<longrightarrow>
      readlines (the (files (snd (write_cam_ids self cam_ids w))
                        (path_join (out_dirname self) ''camera_order.txt''))) =
        map (\<lambda>c. recorded c @ [nl]) cam_ids \<and>
      length (readlines (the (files (snd (write_cam_ids self cam_ids w))
                                (path_join (out_dirname self) ''camera_order.txt'')))) =
        length cam_ids)"
proof (intro conjI impI)
  assume "[] \<in> set cam_ids"
  then show "fst (write_cam_ids self cam_ids w) = Inl IndexError"
    by (simp add: write_cam_ids_def Let_def bnd_open_w write_cam_ids_loop_err)
next
  assume "[] \<notin> set cam_ids"
  then show "write_cam_ids self cam_ids w =
        (Inr (), w\<lparr>files := (files w)(path_join (out_dirname self) ''camera_order.txt'' \<mapsto>
           concat (map (\<lambda>c. recorded c @ [nl]) cam_ids))\<rparr>)"
    by (rule write_cam_ids_ok)
next
  assume a: "[] \<notin> set cam_ids \<and> (\<forall>c \<in> set cam_ids. nl \<notin> set c)"
  then have "\<forall>l \<in> set (map recorded cam_ids). nl \<notin> set l"
    by (auto simp: recorded_no_nl)
  from readlines_concat[OF this]
  have "readlines (concat (map (\<lambda>c. recorded c @ [nl]) cam_ids)) =
          map (\<lambda>c. recorded c @ [nl]) cam_ids"
    by (simp add: comp_def)
  with a show lines: "readlines (the (files (snd (write_cam_ids self cam_ids w))
                        (path_join (out_dirname self) ''camera_order.txt''))) =
        map (\<lambda>c. recorded c @ [nl]) cam_ids"
    by (simp add: write_cam_ids_ok)
  then show "length (readlines (the (files (snd (write_cam_ids self cam_ids w))
                                (path_join (out_dirname self) ''camera_order.txt'')))) =
        length cam_ids"
    by simp
qed

theorem write_cam_ids_lines_witness:
  "fst (write_cam_ids \<lparr>out_dirname = ''/d'', basename = ''cam'', use_nth_frame = 1\<rparr>
          [''camA'', [], ''camB''] \<lparr>files = Map.empty, logged = []\<rparr>) = Inl IndexError \<and>
   files (snd (write_cam_ids \<lparr>out_dirname = ''/d'', basename = ''cam'', use_nth_frame = 1\<rparr>
          [''camA'', ''/camB''] \<lparr>files = Map.empty, logged = []\<rparr>)) ''/d/camera_order.txt''
     = Some (''camA'' @ [nl] @ ''camB'' @ [nl]) \<and>
   readlines (the (files (snd (write_cam_ids
          \<lparr>out_dirname = ''/d'', basename = ''cam'', use_nth_frame = 1\<rparr>
          [''camA'', ''/camB''] \<lparr>files = Map.empty, logged = []\<rparr>)) ''/d/camera_order.txt''))
     = [''camA'' @ [nl], ''camB'' @ [nl]]"
  using write_cam_ids_lines
      [of "[''camA'', [], ''camB'']" "\<lparr>out_dirname = ''/d'', basename = ''cam'', use_nth_frame = 1\<rparr>"
          "\<lparr>files = Map.empty, logged = []\<rparr>", THEN conjunct1]
    write_cam_ids_lines
      [of "[''camA'', ''/camB'']" "\<lparr>out_dirname = ''/d'', basename = ''cam'', use_nth_frame = 1\<rparr>"
          "\<lparr>files = Map.empty, logged = []\<rparr>", THEN conjunct2, THEN conjunct1]
    write_cam_ids_lines
      [of "[''camA'', ''/camB'']" "\<lparr>out_dirname = ''/d'', basename = ''cam'', use_nth_frame = 1\<rparr>"
          "\<lparr>files = Map.empty, logged = []\<rparr>", THEN conjunct2, THEN conjunct2]
  by (simp add: path_join_def recorded_def nl_def)

text \<open>
  C10 as stated fails for a non-empty id that contains a newline: the call on the one
  id \<open>"a\nb"\<close> returns normally and the file has two lines for the one camera.
\<close>

theorem write_cam_ids_two_lines_counterexample:
  "fst (write_cam_ids \<lparr>out_dirname = ''/d'', basename = ''cam'', use_nth_frame = 1\<rparr>
          [''a'' @ [CHR 0x0A] @ ''b''] \<lparr>files = Map.empty, logged = []\<rparr>) = Inr () \<and>
   readlines (the (files (snd (write_cam_ids
          \<lparr>out_dirname = ''/d'', basename = ''cam'', use_nth_frame = 1\<rparr>
          [''a'' @ [CHR 0x0A] @ ''b''] \<lparr>files = Map.empty, logged = []\<rparr>)) ''/d/camera_order.txt''))
     = [''a'' @ [CHR 0x0A], ''b'' @ [CHR 0x0A]] \<and>
   length (readlines (the (files (snd (write_cam_ids
          \<lparr>out_dirname = ''/d'', basename = ''cam'', use_nth_frame = 1\<rparr>
          [''a'' @ [CHR 0x0A] @ ''b''] \<lparr>files = Map.empty, logged = []\<rparr>)) ''/d/camera_order.txt'')))
     \<noteq> length [''a'' @ [CHR 0x0A] @ ''b'']"
  by (simp add: write_cam_ids_ok path_join_def recorded_def nl_def)

text \<open>
  C9, as the code has it.  For non-empty camera ids none of which contains a newline,
  \<open>read_calibration_names\<close> after \<open>_write_cam_ids\<close> gives the ids back in order, each
  without its leading \<open>/\<close> if it has one.
\<close>

theorem camera_order_roundtrip:
  assumes "[] \<notin> set cam_ids" and "\<forall>c \<in> set cam_ids. nl \<notin> set c"
  shows "read_calibration_names (out_dirname self) (snd (write_cam_ids self cam_ids w)) =
           Inr (map recorded cam_ids)"
proof -
  let ?ls = "map recorded cam_ids"
  have "\<forall>l \<in> set ?ls. nl \<notin> set l"
    using assms(2) by (auto simp: recorded_def dest: in_set_tl)
  from split_on_lines[OF this]
  have "split_on nl (concat (map (\<lambda>c. recorded c @ [nl]) cam_ids)) =
          ?ls @ [[]]"
    by (simp add: comp_def)
  with assms(1) show ?thesis
    by (simp add: read_calibration_names_def write_cam_ids_ok)
qed

theorem camera_order_roundtrip_witness:
  "read_calibration_names ''/d''
     (snd (write_cam_ids \<lparr>out_dirname = ''/d'', basename = ''cam'', use_nth_frame = 1\<rparr>
        [''/camA'', ''camB''] \<lparr>files = Map.empty, logged = []\<rparr>)) = Inr [''camA'', ''camB'']"
  using camera_order_roundtrip
      [of "[''/camA'', ''camB'']" "\<lparr>out_dirname = ''/d'', basename = ''cam'', use_nth_frame = 1\<rparr>"
          "\<lparr>files = Map.empty, logged = []\<rparr>"]
  by (simp add: recorded_def nl_def)

text \<open>
  C9 as stated fails for an id that contains a newline: the one id \<open>"a\nb"\<close> is read
  back as the two ids \<open>"a"\<close> and \<open>"b"\<close>.
\<close>

theorem camera_order_newline_counterexample:
  "read_calibration_names ''/d''
     (snd (write_cam_ids \<lparr>out_dirname = ''/d'', basename = ''cam'', use_nth_frame = 1\<rparr>
        [''a'' @ [CHR 0x0A] @ ''b''] \<lparr>files = Map.empty, logged = []\<rparr>)) = Inr [''a'', ''b'']"
  by (simp add: read_calibration_names_def write_cam_ids_ok recorded_def nl_def)

section \<open>The configuration file\<close>

lemma split_on_not_Nil [simp]: "split_on sep s \<noteq> []"
  by (induction s) (auto split: list.splits)

lemma line_in_tl_split_on:
  "sep \<notin> set l \<Longrightarrow> l \<in> set (tl (split_on sep (pre @ sep # l @ sep # post)))"
proof (induction pre)
  case Nil
  then show ?case by (simp add: split_on_line)
next
  case (Cons c pre)
  then show ?case by (auto split: list.splits)
qed

lemma line_in_split_on:
  "sep \<notin> set l \<Longrightarrow> l \<in> set (split_on sep (pre @ sep # l @ sep # post))"
  using line_in_tl_split_on[of sep l pre post] by (auto dest: in_set_tl)

lemma digit_ne_nl: "d < 10 \<Longrightarrow> digit d \<noteq> nl"
proof -
  assume "d < 10"
  then have "d \<in> {0, 1, 2, 3, 4, 5, 6, 7, 8, 9}" by auto
  then show ?thesis by (auto simp: digit_def nl_def)
qed

lemma str_nat_no_nl: "nl \<notin> set (str_nat n)"
proof (induction n rule: str_nat.induct)
  case (1 n)
  show ?case
  proof (cases "n < 10")
    case True
    then show ?thesis using digit_ne_nl[of n] by (simp add: str_nat.simps[of n])
  next
    case False
    with 1 have "nl \<notin> set (str_nat (n div 10))" by simp
    moreover have "digit (n mod 10) \<noteq> nl" by (rule digit_ne_nl) simp
    ultimately show ?thesis using False by (simp add: str_nat.simps[of n])
  qed
qed

lemma str_int_no_nl: "nl \<notin> set (str_int i)"
  by (simp add: str_int_def str_nat_no_nl nl_def[symmetric]) (simp add: nl_def)

lemma cfg_file_lines:
  "''Num-Cameras: '' @ str_int nc \<in> set (split_on nl (cfg_file b nc ncf ur sq un)) \<and>
   ''Num-Cameras-Fill: '' @ str_int ncf \<in> set (split_on nl (cfg_file b nc ncf ur sq un))"
proof
  have a: "nl \<notin> set (''Num-Cameras: '' @ str_int nc)"
    using str_int_no_nl[of nc] by (simp add: nl_def)
  have b: "nl \<notin> set (''Num-Cameras-Fill: '' @ str_int ncf)"
    using str_int_no_nl[of ncf] by (simp add: nl_def)
  show "''Num-Cameras: '' @ str_int nc \<in> set (split_on nl (cfg_file b nc ncf ur sq un))"
    using line_in_split_on[OF a,
      of "''[Files]'' @ [nl] @ ''Basename: '' @ b @ [nl] @ ''Image-Extension: jpg'' @ [nl] @ [nl]
          @ ''[Images]'' @ [nl] @ ''Subpix: 0.5'' @ [nl] @ [nl] @ ''[Calibration]''"]
    by (simp add: cfg_file_def)
  show "''Num-Cameras-Fill: '' @ str_int ncf \<in> set (split_on nl (cfg_file b nc ncf ur sq un))"
    using line_in_split_on[OF b,
      of "''[Files]'' @ [nl] @ ''Basename: '' @ b @ [nl] @ ''Image-Extension: jpg'' @ [nl] @ [nl]
          @ ''[Images]'' @ [nl] @ ''Subpix: 0.5'' @ [nl] @ [nl] @ ''[Calibration]'' @ [nl]
          @ ''Num-Cameras: '' @ str_int nc @ [nl] @ ''Num-Projectors: 0'' @ [nl]
          @ ''Nonlinear-Parameters: 50    0    1    0    0    0'' @ [nl]
          @ ''Nonlinear-Update: 1   0   1   0   0   0'' @ [nl]
          @ ''Initial-Tolerance: 10'' @ [nl] @ ''Do-Global-Iterations: 0'' @ [nl]
          @ ''Global-Iteration-Threshold: 0.5'' @ [nl] @ ''Global-Iteration-Max: 5''"]
    by (simp add: cfg_file_def)
qed

lemma write_cfg_eq:
  "write_cfg self cam_ids rd sp n w =
     (Inr (),
      w\<lparr>files := (files w)(path_join (out_dirname self) ''multicamselfcal.cfg'' \<mapsto>
            cfg_file (basename self) (int (length cam_ids))
              (if n < 0 \<or> int (length cam_ids) < n then int (length cam_ids) else n)
              rd sp (use_nth_frame self)),
         logged := logged w @
           [''calibrate cams: '' @ join '','' cam_ids, ''undo radial: '', ''num_cameras_fill: '',
            ''wrote camera calibration directory: '' @ out_dirname self]\<rparr>)"
  by (simp add: write_cfg_def Let_def bnd_open_w bnd_fd_write bnd_LOG LOG_apply)

lemma str_int_small: "str_int 1 = ''1''" "str_int 2 = ''2''"
  by (simp_all add: str_int_def str_nat.simps[of 1] str_nat.simps[of 2] digit_def)

text \<open>
  C5.  The configuration file \<open>_write_cfg\<close> writes has the line \<open>Num-Cameras-Fill:\<close>
  with the number of cameras when \<open>num_cameras_fill\<close> is negative or exceeds that
  number, and with \<open>num_cameras_fill\<close> itself when it lies between 0 and that number.
  With two cameras and \<open>num_cameras_fill = -1\<close> the file has the lines
  \<open>Num-Cameras: 2\<close> and \<open>Num-Cameras-Fill: 2\<close>.
\<close>

theorem write_cfg_num_cameras_fill:
  "fst (write_cfg self cam_ids rd sp n w) = Inr () \<and>
   files (snd (write_cfg self cam_ids rd sp n w))
       (path_join (out_dirname self) ''multicamselfcal.cfg'') =
     Some (cfg_file (basename self) (int (length cam_ids))
             (if n < 0 \<or> int (length cam_ids) < n then int (length cam_ids) else n)
             rd sp (use_nth_frame self)) \<and>
   (n < 0 \<or> int (length cam_ids) < n \<longrightarrow>
      ''Num-Cameras-Fill: '' @ str_int (int (length cam_ids)) \<in> set (split_on nl
        (the (files (snd (write_cfg self cam_ids rd sp n w))
                (path_join (out_dirname self) ''multicamselfcal.cfg''))))) \<and>
   (0 \<le> n \<and> n \<le> int (length cam_ids) \<longrightarrow>
      ''Num-Cameras-Fill: '' @ str_int n \<in> set (split_on nl
        (the (files (snd (write_cfg self cam_ids rd sp n w))
                (path_join (out_dirname self) ''multicamselfcal.cfg''))))) \<and>
   (length cam_ids = 2 \<and> n = - 1 \<longrightarrow>
      ''Num-Cameras: 2'' \<in> set (split_on nl
        (the (files (snd (write_cfg self cam_ids rd sp n w))
                (path_join (out_dirname self) ''multicamselfcal.cfg'')))) \<and>
      ''Num-Cameras-Fill: 2'' \<in> set (split_on nl
        (the (files (snd (write_cfg self cam_ids rd sp n w))
                (path_join (out_dirname self) ''multicamselfcal.cfg'')))))"
  using cfg_file_lines[of "int (length cam_ids)" "basename self" "int (length cam_ids)" rd sp
          "use_nth_frame self"]
        cfg_file_lines[of "int (length cam_ids)" "basename self" n rd sp "use_nth_frame self"]
        str_int_small
  by (auto simp: write_cfg_eq)

theorem write_cfg_num_cameras_fill_witness:
  "''Num-Cameras-Fill: 2'' \<in> set (split_on nl
      (the (files (snd (write_cfg \<lparr>out_dirname = ''/d'', basename = ''cam'', use_nth_frame = 1\<rparr>
              [''camA'', ''camB''] 0 1 (- 1) \<lparr>files = Map.empty, logged = []\<rparr>))
            ''/d/multicamselfcal.cfg''))) \<and>
   ''Num-Cameras: 2'' \<in> set (split_on nl
      (the (files (snd (write_cfg \<lparr>out_dirname = ''/d'', basename = ''cam'', use_nth_frame = 1\<rparr>
              [''camA'', ''camB''] 0 1 (- 1) \<lparr>files = Map.empty, logged = []\<rparr>))
            ''/d/multicamselfcal.cfg''))) \<and>
   ''Num-Cameras-Fill: 1'' \<in> set (split_on nl
      (the (files (snd (write_cfg \<lparr>out_dirname = ''/d'', basename = ''cam'', use_nth_frame = 1\<rparr>
              [''camA'', ''camB''] 0 1 1 \<lparr>files = Map.empty, logged = []\<rparr>))
            ''/d/multicamselfcal.cfg'')))"
  using write_cfg_num_cameras_fill
      [of "\<lparr>out_dirname = ''/d'', basename = ''cam'', use_nth_frame = 1\<rparr>" "[''camA'', ''camB'']"
          0 1 "- 1" "\<lparr>files = Map.empty, logged = []\<rparr>", THEN conjunct2, THEN conjunct2]
    write_cfg_num_cameras_fill
      [of "\<lparr>out_dirname = ''/d'', basename = ''cam'', use_nth_frame = 1\<rparr>" "[''camA'', ''camB'']"
          0 1 1 "\<lparr>files = Map.empty, logged = []\<rparr>", THEN conjunct2, THEN conjunct2]
  by (simp add: path_join_def str_int_small)

section \<open>\<open>create_calibration_directory\<close>\<close>

lemma shape_two: "\<exists>a b. shape arr = [a, b]"
  by (cases arr) (simp_all add: shape_def)

lemma format_shape: "format_r_tuple text (map str_nat (shape arr)) = Inl TypeError"
  using shape_two[of arr] by (auto simp: format_r_tuple_def)

text \<open>
  The two assertions come first.  When they pass, the record \<open>'points.shape %r' %
  points.shape\<close> is built with the two-item shape tuple as the arguments of one
  conversion, which raises \<open>TypeError\<close> before any file is written.
\<close>

lemma create_calibration_directory_raises:
  "create_calibration_directory repr_i repr_p repr_r repr_Res self cam_ids IdMat points Res
     cam_calibrations radial_distortion square_pixels num_cameras_fill w =
   (Inl (if len_array Res \<noteq> length cam_ids then AssertionError
         else if cam_calibrations \<noteq> None \<and> length cam_ids \<noteq> len_dict (the cam_calibrations)
         then AssertionError else TypeError), w)"
  by (simp add: create_calibration_directory_def format_shape raise_apply)

text \<open>
  C4 on one camera with matching \<open>Res\<close>.  With \<open>cam_calibrations = None\<close> the call
  raises \<open>TypeError\<close> and writes no file; with \<open>cam_calibrations\<close> left at its default
  \<open>{}\<close> the second assertion applies and fails.
\<close>

theorem create_calibration_directory_no_calibrations:
  "create_calibration_directory str_nat str_nat str_nat (\<lambda>_. ''array([[640, 480]])'')
     \<lparr>out_dirname = ''/d'', basename = ''cam'', use_nth_frame = 1\<rparr>
     [''camA''] (NumArray [[1]]) (NumArray [[1], [2], [1]]) (NumArray [[640, 480]])
     None 0 1 (- 1) \<lparr>files = Map.empty, logged = []\<rparr>
   = (Inl TypeError, \<lparr>files = Map.empty, logged = []\<rparr>) \<and>
   create_calibration_directory str_nat str_nat str_nat (\<lambda>_. ''array([[640, 480]])'')
     \<lparr>out_dirname = ''/d'', basename = ''cam'', use_nth_frame = 1\<rparr>
     [''camA''] (NumArray [[1]]) (NumArray [[1], [2], [1]]) (NumArray [[640, 480]])
     (Some []) 0 1 (- 1) \<lparr>files = Map.empty, logged = []\<rparr>
   = (Inl AssertionError, \<lparr>files = Map.empty, logged = []\<rparr>)"
  by (simp add: create_calibration_directory_raises len_dict_def keys_def)

section \<open>\<open>get_camera_names_map\<close>\<close>

lemma names_loop_other:
  "x \<notin> set names \<Longrightarrow> names_loop i names m x = m x"
  by (induction names arbitrary: i m) auto

lemma names_loop_at:
  "k < length names \<Longrightarrow> names ! k \<notin> set (drop (Suc k) names) \<Longrightarrow>
   names_loop i names m (names ! k) = Some (tmpl (i + k + 1))"
proof (induction names arbitrary: i m k)
  case Nil
  then show ?case by simp
next
  case (Cons name rest)
  show ?case
  proof (cases k)
    case 0
    with Cons.prems show ?thesis by (simp add: names_loop_other)
  next
    case (Suc j)
    with Cons.prems Cons.IH[of j "Suc i"] show ?thesis by simp
  qed
qed

section \<open>The first loop of \<open>create_from_cams\<close>\<close>

lemma float_max_pos: "0 < float_max"
  using float_max_ge_1 by linarith

lemma nonzero_nan_to_num: "nonzero (nan_to_num x) \<longleftrightarrow> x \<noteq> NaN \<and> x \<noteq> Fin 0"
  using float_max_pos by (cases x) auto

lemma nvalid_zero_iff:
  "nvalid arr = 0 \<longleftrightarrow> (\<forall>row \<in> set arr. \<forall>x \<in> set row. x = NaN \<or> x = Fin 0)"
  by (auto simp: nvalid_def count_nonzero_def filter_empty_conv nonzero_nan_to_num)

lemma list_remove_mid:
  "x \<notin> set zs \<Longrightarrow> list_remove x (zs @ x # ys) = Inr (zs @ ys)"
  by (induction zs) auto

lemma remove_each_filter_gen:
  "\<forall>z \<in> set zs. \<not> P z \<Longrightarrow>
   remove_each (filter P xs) (zs @ xs) = Inr (zs @ filter (\<lambda>x. \<not> P x) xs)"
proof (induction xs arbitrary: zs)
  case Nil
  then show ?case by simp
next
  case (Cons x xs)
  show ?case
  proof (cases "P x")
    case True
    with Cons.prems have "x \<notin> set zs" by auto
    with True Cons.IH[OF Cons.prems] show ?thesis by (simp add: list_remove_mid)
  next
    case False
    with Cons.prems Cons.IH[of "zs @ [x]"] show ?thesis by simp
  qed
qed

lemma remove_each_filter:
  "remove_each (filter (\<lambda>x. \<not> P x) xs) xs = Inr (filter P xs)"
  using remove_each_filter_gen[of "[]" "\<lambda>x. \<not> P x" xs] by simp

lemma cams_to_remove_loop_files:
  "files (snd (cams_to_remove_loop cam_points ids acc w)) = files w"
proof (induction ids arbitrary: acc w)
  case Nil
  then show ?case by (simp add: ret_apply)
next
  case (Cons cam rest)
  show ?case
  proof (cases "getitem cam_points cam")
    case (Inl e)
    then show ?thesis by (simp add: raise_apply)
  next
    case (Inr pts)
    then show ?thesis
      using Cons.IH by (cases "np_array pts") (simp_all add: raise_apply bnd_LOG np_array_def split: if_splits)
  qed
qed

lemma cams_to_remove_loop_Inr:
  "cams_to_remove_loop cam_points ids acc w = (Inr r, w1) \<Longrightarrow>
   r = acc @ filter (\<lambda>c. \<not> has_points cam_points c) ids \<and>
   w1 = w\<lparr>logged := logged w @
          map (\<lambda>c. ''removing cam '' @ c @ '' - no points detected'')
            (filter (\<lambda>c. \<not> has_points cam_points c) ids)\<rparr>"
proof (induction ids arbitrary: acc w)
  case Nil
  then show ?case by (simp add: ret_apply)
next
  case (Cons cam rest)
  show ?case
  proof (cases "getitem cam_points cam")
    case (Inl e)
    with Cons.prems show ?thesis by (simp add: raise_apply)
  next
    case (Inr pts)
    show ?thesis
    proof (cases "rectangular pts")
      case False
      with Inr Cons.prems show ?thesis by (simp add: np_array_def raise_apply)
    next
      case True
      show ?thesis
      proof (cases "nvalid pts = 0")
        case z: True
        with True Inr Cons.prems
        have "cams_to_remove_loop cam_points rest (acc @ [cam])
                (w\<lparr>logged := logged w @ [''removing cam '' @ cam @ '' - no points detected'']\<rparr>)
              = (Inr r, w1)"
          by (simp add: np_array_def bnd_LOG)
        from Cons.IH[OF this] z Inr show ?thesis by (simp add: has_points_def)
      next
        case nz: False
        with True Inr Cons.prems
        have "cams_to_remove_loop cam_points rest acc w = (Inr r, w1)"
          by (simp add: np_array_def)
        from Cons.IH[OF this] nz Inr show ?thesis by (simp add: has_points_def)
      qed
    qed
  qed
qed

section \<open>What the actions touch, keep and ensure\<close>

lemma touches_mono: "touches S m \<Longrightarrow> S \<subseteq> S' \<Longrightarrow> touches S' m"
  by (auto simp: touches_def)

lemma touches_bnd: "touches S m \<Longrightarrow> (\<And>x. touches S (f x)) \<Longrightarrow> touches S (bnd m f)"
proof (unfold touches_def, intro allI impI)
  fix w :: world and p assume m: "\<forall>w p. p \<notin> S \<longrightarrow> files (snd (m w)) p = files w p"
    and f: "\<And>x. \<forall>w p. p \<notin> S \<longrightarrow> files (snd (f x w)) p = files w p" and p: "p \<notin> S"
  obtain r w1 where mw: "m w = (r, w1)" by (cases "m w")
  from m p mw have 1: "files w1 p = files w p" by (metis snd_conv)
  show "files (snd (bnd m f w)) p = files w p"
  proof (cases r)
    case (Inl e)
    with mw 1 show ?thesis by (simp add: bnd_def)
  next
    case (Inr x)
    with mw 1 f[of x] p show ?thesis by (simp add: bnd_def)
  qed
qed

lemma touches_simple [simp]:
  "touches S (ret x)" "touches S (raise e)" "touches S (lift r)" "touches S (LOG msg)"
  by (simp_all add: touches_def ret_def raise_def lift_def LOG_def)

lemma touches_open_w: "p \<in> S \<Longrightarrow> touches S (open_w p)"
  by (auto simp: touches_def open_w_def)

lemma touches_fd_write: "p \<in> S \<Longrightarrow> touches S (fd_write p s)"
  by (auto simp: touches_def fd_write_def)

lemma touches_save_Stream: "p \<in> S \<Longrightarrow> touches S (save_ascii_matrix repr arr (Stream p))"
  by (simp add: save_ascii_matrix_def touches_fd_write)

lemma touches_write_rad: "rad_dest self i \<in> S \<Longrightarrow> touches S (write_rad L self cals i cam)"
  by (auto simp: touches_def write_rad_def ret_def bnd_def lift_def Let_def
        camera_calibration_yaml_to_radfile_def shutil_copy_def
        split: sum.splits option.splits)

lemma touches_write_cam:
  assumes "path_join (out_dirname self) ''Res.dat'' \<in> S"
    and "path_join (out_dirname self) ''IdMat.dat'' \<in> S"
    and "path_join (out_dirname self) ''points.dat'' \<in> S"
    and "rad_dest self i \<in> S"
  shows "touches S (write_cam L self res pts cals i cam)"
  unfolding write_cam_def Let_def
  by (intro touches_bnd touches_simple touches_save_Stream touches_write_rad assms
        if_split[where P = "touches S", THEN iffD2] conjI impI)

lemma touches_cams_loop:
  assumes "path_join (out_dirname self) ''Res.dat'' \<in> S"
    and "path_join (out_dirname self) ''IdMat.dat'' \<in> S"
    and "path_join (out_dirname self) ''points.dat'' \<in> S"
    and "\<forall>j. i \<le> j \<and> j < i + length cams \<longrightarrow> rad_dest self j \<in> S"
  shows "touches S (cams_loop L self res pts cals i cams)"
  using assms(4)
proof (induction cams arbitrary: i)
  case Nil
  then show ?case by simp
next
  case (Cons cam rest)
  have "touches S (write_cam L self res pts cals i cam)"
    using Cons.prems by (intro touches_write_cam assms) simp
  moreover have "touches S (cams_loop L self res pts cals (Suc i) rest)"
    using Cons.prems by (intro Cons.IH) auto
  ultimately show ?case by (simp add: touches_bnd)
qed

lemma touches_write_cam_ids_loop: "f \<in> S \<Longrightarrow> touches S (write_cam_ids_loop f ids)"
  by (induction ids) (auto simp: touches_bnd touches_fd_write split: list.splits)

lemma touches_write_cam_ids:
  "path_join (out_dirname self) ''camera_order.txt'' \<in> S \<Longrightarrow> touches S (write_cam_ids self ids)"
  by (simp add: write_cam_ids_def Let_def touches_bnd touches_open_w touches_write_cam_ids_loop)

lemma touches_cams_to_remove_loop: "touches S (cams_to_remove_loop cam_points ids acc)"
  by (simp add: touches_def cams_to_remove_loop_files)

lemma keeps_bnd: "keeps m \<Longrightarrow> (\<And>x. keeps (f x)) \<Longrightarrow> keeps (bnd m f)"
proof (unfold keeps_def, intro allI)
  fix w :: world
  assume m: "\<forall>w. (\<forall>p. files w p \<noteq> None \<longrightarrow> files (snd (m w)) p \<noteq> None) \<and>
                 set (logged w) \<subseteq> set (logged (snd (m w)))"
    and f: "\<And>x. \<forall>w. (\<forall>p. files w p \<noteq> None \<longrightarrow> files (snd (f x w)) p \<noteq> None) \<and>
                 set (logged w) \<subseteq> set (logged (snd (f x w)))"
  obtain r w1 where mw: "m w = (r, w1)" by (cases "m w")
  from m mw have 1: "(\<forall>p. files w p \<noteq> None \<longrightarrow> files w1 p \<noteq> None) \<and>
      set (logged w) \<subseteq> set (logged w1)"
    by (metis snd_conv)
  show "(\<forall>p. files w p \<noteq> None \<longrightarrow> files (snd (bnd m f w)) p \<noteq> None) \<and>
     set (logged w) \<subseteq> set (logged (snd (bnd m f w)))"
  proof (cases r)
    case (Inl e)
    with mw 1 show ?thesis by (simp add: bnd_def)
  next
    case (Inr x)
    from f[of x] have "(\<forall>p. files w1 p \<noteq> None \<longrightarrow> files (snd (f x w1)) p \<noteq> None) \<and>
      set (logged w1) \<subseteq> set (logged (snd (f x w1)))" by blast
    with Inr mw 1 show ?thesis by (auto simp: bnd_def)
  qed
qed

lemma keeps_simple [simp]:
  "keeps (ret x)" "keeps (raise e)" "keeps (lift r)" "keeps (LOG msg)"
  "keeps (open_w p)" "keeps (fd_write p s)"
  by (auto simp: keeps_def ret_def raise_def lift_def LOG_def open_w_def fd_write_def)

lemma keeps_save_Stream: "keeps (save_ascii_matrix repr arr (Stream p))"
  by (simp add: save_ascii_matrix_def)

lemma keeps_write_rad: "keeps (write_rad L self cals i cam)"
  by (auto simp: keeps_def write_rad_def ret_def bnd_def lift_def Let_def
        camera_calibration_yaml_to_radfile_def shutil_copy_def
        split: sum.splits option.splits)

lemma keeps_write_cam: "keeps (write_cam L self res pts cals i cam)"
  unfolding write_cam_def Let_def
  by (intro keeps_bnd keeps_simple keeps_save_Stream keeps_write_rad
        if_split[where P = keeps, THEN iffD2] conjI impI)

lemma keeps_cams_loop: "keeps (cams_loop L self res pts cals i cams)"
  by (induction cams arbitrary: i) (simp_all add: keeps_bnd keeps_write_cam)

lemma keeps_write_cfg: "keeps (write_cfg self ids rd sp n)"
  by (simp add: write_cfg_def Let_def keeps_bnd)

lemma fails_raise [simp]: "fails (raise e)"
  by (simp add: fails_def raise_def)

lemma fails_bnd_left: "fails m \<Longrightarrow> fails (bnd m f)"
proof (unfold fails_def, intro allI)
  fix w :: world assume "\<forall>w. \<exists>e. fst (m w) = Inl e"
  then obtain e where "fst (m w) = Inl e" by blast
  then show "\<exists>e. fst (bnd m f w) = Inl e"
    by (cases "m w") (simp add: bnd_def)
qed

lemma fails_bnd_right: "(\<And>x. fails (f x)) \<Longrightarrow> fails (bnd m f)"
proof (unfold fails_def, intro allI)
  fix w :: world assume f: "\<And>x. \<forall>w. \<exists>e. fst (f x w) = Inl e"
  obtain r w1 where mw: "m w = (r, w1)" by (cases "m w")
  show "\<exists>e. fst (bnd m f w) = Inl e"
  proof (cases r)
    case (Inl e)
    with mw show ?thesis by (simp add: bnd_def)
  next
    case (Inr x)
    with mw f[of x] show ?thesis by (simp add: bnd_def)
  qed
qed

lemma fails_write_rad:
  assumes "map_of cals cam = Some url" and "\<not> endswith url ''.yaml''" and "\<not> endswith url ''.rad''"
  shows "fails (write_rad L self cals i cam)"
  using assms
  by (simp add: fails_def write_rad_def contains_def getitem_def Let_def)

lemma fails_write_cam:
  assumes "map_of cals cam = Some url" and "\<not> endswith url ''.yaml''" and "\<not> endswith url ''.rad''"
  shows "fails (write_cam L self res pts cals i cam)"
  unfolding write_cam_def Let_def
  by (intro fails_bnd_right fails_raise fails_write_rad[OF assms]
        if_split[where P = fails, THEN iffD2] conjI impI)

lemma fails_cams_loop:
  assumes "k < length cams" and "map_of cals (cams ! k) = Some url"
    and "\<not> endswith url ''.yaml''" and "\<not> endswith url ''.rad''"
  shows "fails (cams_loop L self res pts cals i cams)"
  using assms(1,2)
proof (induction cams arbitrary: i k)
  case Nil
  then show ?case by simp
next
  case (Cons cam rest)
  show ?case
  proof (cases k)
    case 0
    with Cons.prems have "map_of cals cam = Some url" by simp
    then have "fails (write_cam L self res pts cals i cam)"
      by (rule fails_write_cam[OF _ assms(3,4)])
    then show ?thesis
      by (simp add: fails_bnd_left)
  next
    case (Suc j)
    with Cons.prems have "fails (cams_loop L self res pts cals (Suc i) rest)"
      by (intro Cons.IH[of j]) simp_all
    then show ?thesis by (simp add: fails_bnd_right)
  qed
qed

section \<open>File names\<close>

lemma digit_inj: "a < 10 \<Longrightarrow> b < 10 \<Longrightarrow> digit a = digit b \<Longrightarrow> a = b"
proof -
  assume "a < 10" "b < 10" and e: "digit a = digit b"
  then have "a \<in> {0, 1, 2, 3, 4, 5, 6, 7, 8, 9}" "b \<in> {0, 1, 2, 3, 4, 5, 6, 7, 8, 9}" by auto
  with e show ?thesis by (auto simp: digit_def)
qed

lemma str_nat_not_Nil [simp]: "str_nat n \<noteq> []"
  by (subst str_nat.simps) simp

lemma str_nat_inj: "str_nat m = str_nat n \<Longrightarrow> m = n"
proof (induction m arbitrary: n rule: str_nat.induct)
  case (1 m)
  show ?case
  proof (cases "m < 10")
    case m: True
    show ?thesis
    proof (cases "n < 10")
      case True
      with m "1.prems" show ?thesis
        by (simp add: str_nat.simps[of m] str_nat.simps[of n] digit_inj)
    next
      case False
      with m "1.prems" show ?thesis
        by (simp add: str_nat.simps[of m] str_nat.simps[of n] Cons_eq_append_conv)
    qed
  next
    case m: False
    show ?thesis
    proof (cases "n < 10")
      case True
      with m "1.prems" show ?thesis
        by (simp add: str_nat.simps[of m] str_nat.simps[of n] append_eq_Cons_conv)
    next
      case False
      with m "1.prems" have e: "str_nat (m div 10) = str_nat (n div 10)"
        and d: "digit (m mod 10) = digit (n mod 10)"
        by (simp_all add: str_nat.simps[of m] str_nat.simps[of n])
      from "1.IH"[OF m e] have "m div 10 = n div 10" .
      moreover from d have "m mod 10 = n mod 10" by (intro digit_inj) simp_all
      ultimately show ?thesis by (metis div_mult_mod_eq)
    qed
  qed
qed

lemma rad_dest_inj: "rad_dest self i = rad_dest self j \<Longrightarrow> i = j"
  using str_nat_inj[of "i + 1" "j + 1"] by (simp add: rad_dest_def)

lemma last_rad_dest: "last (rad_dest self i) = CHR ''d''"
  by (simp add: rad_dest_def)

lemma last_paths:
  "last (path_join d ''camera_order.txt'') = CHR ''t''"
  "last (path_join d ''Res.dat'') = CHR ''t''"
  "last (path_join d ''IdMat.dat'') = CHR ''t''"
  "last (path_join d ''points.dat'') = CHR ''t''"
  "last (path_join d ''multicamselfcal.cfg'') = CHR ''g''"
  by (simp_all add: path_join_def)

lemma rad_dest_ne_paths:
  "rad_dest self i \<noteq> path_join d ''camera_order.txt''"
  "rad_dest self i \<noteq> path_join d ''Res.dat''"
  "rad_dest self i \<noteq> path_join d ''IdMat.dat''"
  "rad_dest self i \<noteq> path_join d ''points.dat''"
  "rad_dest self i \<noteq> path_join d ''multicamselfcal.cfg''"
  using last_rad_dest[of self i] last_paths[of d] by auto

lemma order_ne_paths:
  "path_join d ''camera_order.txt'' \<noteq> path_join d ''Res.dat''"
  "path_join d ''camera_order.txt'' \<noteq> path_join d ''IdMat.dat''"
  "path_join d ''camera_order.txt'' \<noteq> path_join d ''points.dat''"
  "path_join d ''camera_order.txt'' \<noteq> path_join d ''multicamselfcal.cfg''"
  by (simp_all add: path_join_def)

section \<open>\<open>create_from_cams\<close> in two phases\<close>

lemma create_from_cams_split:
  "create_from_cams L self cam_ids res cam_points cals n =
     bnd (cams_to_remove_loop cam_points (if cam_ids = [] then keys cam_points else cam_ids) [])
       (\<lambda>cams_to_remove.
     bnd (lift (remove_each cams_to_remove (if cam_ids = [] then keys cam_points else cam_ids)))
       (\<lambda>cam_ids. write_directory L self res cam_points cals n cam_ids cams_to_remove))"
  by (simp add: create_from_cams_def write_directory_def Let_def)

lemma create_from_cams_cases:
  fixes w :: world
  assumes ids: "ids = (if cam_ids = [] then keys cam_points else cam_ids)"
  obtains (removal_raises) e w1 where
      "cams_to_remove_loop cam_points ids [] w = (Inl e, w1)"
      "create_from_cams L self cam_ids res cam_points cals n w = (Inl e, w1)"
      "files w1 = files w"
  | (removed) w1 where
      "w1 = w\<lparr>logged := logged w @
             map (\<lambda>c. ''removing cam '' @ c @ '' - no points detected'')
               (filter (\<lambda>c. \<not> has_points cam_points c) ids)\<rparr>"
      "cams_to_remove_loop cam_points ids [] w =
         (Inr (filter (\<lambda>c. \<not> has_points cam_points c) ids), w1)"
      "create_from_cams L self cam_ids res cam_points cals n w =
         write_directory L self res cam_points cals n (filter (has_points cam_points) ids)
           (filter (\<lambda>c. \<not> has_points cam_points c) ids) w1"
proof -
  obtain r w1 where rw: "cams_to_remove_loop cam_points ids [] w = (r, w1)"
    by (cases "cams_to_remove_loop cam_points ids [] w")
  show thesis
  proof (cases r)
    case (Inl e)
    from rw cams_to_remove_loop_files[of cam_points ids "[]" w] have "files w1 = files w" by simp
    with Inl rw ids removal_raises show thesis
      by (simp add: create_from_cams_split bnd_def)
  next
    case (Inr rem)
    from cams_to_remove_loop_Inr[OF rw[unfolded Inr]]
    have rem: "rem = filter (\<lambda>c. \<not> has_points cam_points c) ids"
      and w1: "w1 = w\<lparr>logged := logged w @
             map (\<lambda>c. ''removing cam '' @ c @ '' - no points detected'')
               (filter (\<lambda>c. \<not> has_points cam_points c) ids)\<rparr>"
      by simp_all
    have "create_from_cams L self cam_ids res cam_points cals n w =
         write_directory L self res cam_points cals n (filter (has_points cam_points) ids)
           (filter (\<lambda>c. \<not> has_points cam_points c) ids) w1"
      using rw Inr rem ids remove_each_filter[of "has_points cam_points" ids]
      by (simp add: create_from_cams_split bnd_def lift_def)
    with removed w1 rw Inr rem show thesis by simp
  qed
qed

lemma touches_bnd_fails: "fails m \<Longrightarrow> touches S m \<Longrightarrow> touches S (bnd m f)"
proof (unfold touches_def, intro allI impI)
  fix w :: world and p
  assume fl: "fails m" and m: "\<forall>w p. p \<notin> S \<longrightarrow> files (snd (m w)) p = files w p" and p: "p \<notin> S"
  from fl obtain e where "fst (m w) = Inl e" unfolding fails_def by blast
  then have "snd (bnd m f w) = snd (m w)" by (cases "m w") (simp add: bnd_def)
  with m p show "files (snd (bnd m f w)) p = files w p" by simp
qed

lemma touches_write_rad_unsupported:
  assumes "map_of cals cam = Some url" and "\<not> endswith url ''.yaml''" and "\<not> endswith url ''.rad''"
  shows "touches S (write_rad L self cals i cam)"
  using assms
  by (simp add: touches_def write_rad_def contains_def getitem_def Let_def)

lemma touches_write_cam':
  assumes "path_join (out_dirname self) ''Res.dat'' \<in> S"
    and "path_join (out_dirname self) ''IdMat.dat'' \<in> S"
    and "path_join (out_dirname self) ''points.dat'' \<in> S"
    and "touches S (write_rad L self cals i cam)"
  shows "touches S (write_cam L self res pts cals i cam)"
  unfolding write_cam_def Let_def
  by (intro touches_bnd touches_simple touches_save_Stream assms
        if_split[where P = "touches S", THEN iffD2] conjI impI)

lemma touches_cams_loop_unsupported:
  assumes "k < length cams" and "map_of cals (cams ! k) = Some url"
    and "\<not> endswith url ''.yaml''" and "\<not> endswith url ''.rad''"
    and "path_join (out_dirname self) ''Res.dat'' \<in> S"
    and "path_join (out_dirname self) ''IdMat.dat'' \<in> S"
    and "path_join (out_dirname self) ''points.dat'' \<in> S"
    and "\<forall>j. i \<le> j \<and> j < i + k \<longrightarrow> rad_dest self j \<in> S"
  shows "touches S (cams_loop L self res pts cals i cams)"
  using assms(1,2,8)
proof (induction cams arbitrary: i k)
  case Nil
  then show ?case by simp
next
  case (Cons cam rest)
  show ?case
  proof (cases k)
    case 0
    with Cons.prems have c: "map_of cals cam = Some url" by simp
    have "touches S (write_rad L self cals i cam)"
      by (rule touches_write_rad_unsupported[OF c assms(3,4)])
    then have "touches S (write_cam L self res pts cals i cam)"
      by (intro touches_write_cam' assms)
    moreover have "fails (write_cam L self res pts cals i cam)"
      by (rule fails_write_cam[OF c assms(3,4)])
    ultimately show ?thesis by (simp add: touches_bnd_fails)
  next
    case (Suc j)
    with Cons.prems have "rad_dest self i \<in> S" by simp
    then have "touches S (write_cam L self res pts cals i cam)"
      by (intro touches_write_cam assms)
    moreover have "touches S (cams_loop L self res pts cals (Suc i) rest)"
      using Cons.prems Suc by (intro Cons.IH[of j]) auto
    ultimately show ?thesis by (simp add: touches_bnd)
  qed
qed

lemma fails_write_directory:
  assumes "k < length cams" and "map_of cals (cams ! k) = Some url"
    and "\<not> endswith url ''.yaml''" and "\<not> endswith url ''.rad''"
  shows "fails (write_directory L self res pts cals n cams rem)"
  unfolding write_directory_def
  by (intro fails_bnd_right fails_bnd_left fails_cams_loop[OF assms])

lemma write_directory_unsupported_frame:
  assumes "k < length cams" and "map_of cals (cams ! k) = Some url"
    and "\<not> endswith url ''.yaml''" and "\<not> endswith url ''.rad''"
  shows "files (snd (write_directory L self res pts cals n cams rem w)) (rad_dest self k) =
         files w (rad_dest self k)"
proof -
  let ?S = "{path_join (out_dirname self) ''camera_order.txt'',
             path_join (out_dirname self) ''Res.dat'',
             path_join (out_dirname self) ''IdMat.dat'',
             path_join (out_dirname self) ''points.dat''} \<union> {rad_dest self j | j. j < k}"
  have loop: "touches ?S (cams_loop L self res pts cals 0 cams)"
    by (rule touches_cams_loop_unsupported[OF assms]) auto
  have "touches ?S (write_directory L self res pts cals n cams rem)"
    unfolding write_directory_def
    by (intro touches_bnd touches_write_cam_ids touches_open_w
          touches_bnd_fails[OF fails_cams_loop[OF assms] loop]) simp_all
  moreover have "rad_dest self k \<notin> ?S"
    using rad_dest_ne_paths[of self k "out_dirname self"] rad_dest_inj[of self k] by auto
  ultimately show ?thesis by (simp add: touches_def)
qed

lemma ensures_bnd_right: "(\<And>x. ensures Q (f x)) \<Longrightarrow> ensures Q (bnd m f)"
  by (auto simp: ensures_def bnd_def split: prod.splits sum.splits)

lemma ensures_raise [simp]: "ensures Q (raise e)"
  by (simp add: ensures_def raise_def)

lemma ensures_bnd_left:
  "ensures Q m \<Longrightarrow> (\<And>x w. Q w \<Longrightarrow> Q (snd (f x w))) \<Longrightarrow> ensures Q (bnd m f)"
proof (unfold ensures_def, intro allI impI)
  fix w :: world and y w'
  assume m: "\<forall>w x w'. m w = (Inr x, w') \<longrightarrow> Q w'" and f: "\<And>x w. Q w \<Longrightarrow> Q (snd (f x w))"
    and b: "bnd m f w = (Inr y, w')"
  obtain r w1 where mw: "m w = (r, w1)" by (cases "m w")
  with b obtain x where r: "r = Inr x" by (cases r) (simp_all add: bnd_def)
  with mw m have "Q w1" by blast
  from f[OF this, of x] b mw r show "Q w'" by (simp add: bnd_def)
qed

lemma ensuresD: "ensures Q m \<Longrightarrow> fst (m w) = Inr x \<Longrightarrow> Q (snd (m w))"
  unfolding ensures_def by (metis prod.collapse)

lemma keeps_file: "keeps m \<Longrightarrow> files w p \<noteq> None \<Longrightarrow> files (snd (m w)) p \<noteq> None"
  by (simp add: keeps_def)

lemma keeps_log: "keeps m \<Longrightarrow> x \<in> set (logged w) \<Longrightarrow> x \<in> set (logged (snd (m w)))"
  by (auto simp: keeps_def)

lemma ensures_write_rad:
  "contains cals cam \<Longrightarrow> ensures (\<lambda>w. files w (rad_dest self i) \<noteq> None) (write_rad L self cals i cam)"
  by (auto simp: ensures_def write_rad_def bnd_def lift_def Let_def
        camera_calibration_yaml_to_radfile_def shutil_copy_def
        split: sum.splits option.splits if_splits)

lemma ensures_write_cam:
  "contains cals cam \<Longrightarrow>
   ensures (\<lambda>w. files w (rad_dest self i) \<noteq> None) (write_cam L self res pts cals i cam)"
  unfolding write_cam_def Let_def
  by (intro ensures_bnd_right ensures_raise ensures_write_rad
        if_split[where P = "ensures (\<lambda>w. files w (rad_dest self i) \<noteq> None)", THEN iffD2] conjI impI)

lemma ensures_cams_loop:
  "k < length cams \<Longrightarrow> contains cals (cams ! k) \<Longrightarrow>
   ensures (\<lambda>w. files w (rad_dest self (i + k)) \<noteq> None) (cams_loop L self res pts cals i cams)"
proof (induction cams arbitrary: i k)
  case Nil
  then show ?case by simp
next
  case (Cons cam rest)
  show ?case
  proof (cases k)
    case 0
    with Cons.prems have "contains cals cam" by simp
    then have "ensures (\<lambda>w. files w (rad_dest self i) \<noteq> None) (write_cam L self res pts cals i cam)"
      by (rule ensures_write_cam)
    then have "ensures (\<lambda>w. files w (rad_dest self i) \<noteq> None)
            (bnd (write_cam L self res pts cals i cam)
               (\<lambda>_. cams_loop L self res pts cals (Suc i) rest))"
      by (rule ensures_bnd_left) (rule keeps_file[OF keeps_cams_loop])
    with 0 show ?thesis by simp
  next
    case (Suc j)
    with Cons.prems Cons.IH[of j "Suc i"] show ?thesis
      by (simp add: ensures_bnd_right)
  qed
qed

lemma keeps_write_cam_ids_loop: "keeps (write_cam_ids_loop f ids)"
  by (induction ids) (auto simp: keeps_bnd split: list.splits)

lemma keeps_write_cam_ids: "keeps (write_cam_ids self ids)"
  by (simp add: write_cam_ids_def Let_def keeps_bnd keeps_write_cam_ids_loop)

lemma keeps_write_directory: "keeps (write_directory L self res pts cals n cams rem)"
  unfolding write_directory_def
  by (intro keeps_bnd keeps_write_cam_ids keeps_simple keeps_cams_loop keeps_write_cfg)

lemma ensures_write_directory_rad:
  assumes "k < length cams" and "contains cals (cams ! k)"
  shows "ensures (\<lambda>w. files w (rad_dest self k) \<noteq> None)
           (write_directory L self res pts cals n cams rem)"
  unfolding write_directory_def
  using ensures_cams_loop[OF assms, of self 0 L res pts]
  by (intro ensures_bnd_right ensures_bnd_left keeps_file keeps_bnd keeps_write_cfg keeps_simple)
     simp_all

lemma ensures_write_directory_log:
  "ensures (\<lambda>w. last (logged w) = ''dropped cams: '' @ join '','' rem)
           (write_directory L self res pts cals n cams rem)"
  unfolding write_directory_def
  by (intro ensures_bnd_right) (simp add: ensures_def LOG_def)

lemma ensures_write_directory_cfg:
  "ensures (\<lambda>w. files w (path_join (out_dirname self) ''multicamselfcal.cfg'') =
              Some (cfg_file (basename self) (int (length cams))
                (if n < 0 \<or> int (length cams) < n then int (length cams) else n)
                (if list_all (contains cals) cams then 1 else 0) 1 (use_nth_frame self)))
           (write_directory L self res pts cals n cams rem)"
proof -
  have "ensures (\<lambda>w. files w (path_join (out_dirname self) ''multicamselfcal.cfg'') =
              Some (cfg_file (basename self) (int (length cams))
                (if n < 0 \<or> int (length cams) < n then int (length cams) else n)
                (if list_all (contains cals) cams then 1 else 0) 1 (use_nth_frame self)))
          (bnd (write_cfg self cams (if list_all (contains cals) cams then 1 else 0) 1 n)
             (\<lambda>_. LOG (''dropped cams: '' @ join '','' rem)))"
    by (simp add: ensures_def bnd_def write_cfg_eq LOG_def)
  then show ?thesis
    unfolding write_directory_def
    by (intro ensures_bnd_right[of _ "\<lambda>_. bnd (open_w p) g" for p g]
              ensures_bnd_right[of _ "\<lambda>_. bnd (cams_loop a b c d e i xs) g" for a b c d e i xs g]
              ensures_bnd_right[of _ "\<lambda>_. bnd (write_cfg a b c d e) g" for a b c d e g])
qed

lemma write_directory_order:
  assumes "fst (write_directory L self res pts cals n cams rem w) = Inr ()"
  shows "[] \<notin> set cams \<and>
         files (snd (write_directory L self res pts cals n cams rem w))
           (path_join (out_dirname self) ''camera_order.txt'') =
         Some (concat (map (\<lambda>c. recorded c @ [nl]) cams))"
proof -
  let ?po = "path_join (out_dirname self) ''camera_order.txt''"
  let ?S = "{path_join (out_dirname self) ''Res.dat'',
             path_join (out_dirname self) ''IdMat.dat'',
             path_join (out_dirname self) ''points.dat'',
             path_join (out_dirname self) ''multicamselfcal.cfg''} \<union> range (rad_dest self)"
  let ?rest = "bnd (open_w (path_join (out_dirname self) ''Res.dat'')) (\<lambda>_.
     bnd (open_w (path_join (out_dirname self) ''IdMat.dat'')) (\<lambda>_.
     bnd (open_w (path_join (out_dirname self) ''points.dat'')) (\<lambda>_.
     bnd (cams_loop L self res pts cals 0 cams) (\<lambda>_.
     bnd (write_cfg self cams (if list_all (contains cals) cams then 1 else 0) 1 n) (\<lambda>_.
     LOG (''dropped cams: '' @ join '','' rem))))))"
  have wd: "write_directory L self res pts cals n cams rem = bnd (write_cam_ids self cams) (\<lambda>_. ?rest)"
    by (simp add: write_directory_def)
  have ne: "[] \<notin> set cams"
  proof
    assume "[] \<in> set cams"
    then have "fst (write_cam_ids self cams w) = Inl IndexError"
      by (simp add: write_cam_ids_def Let_def bnd_open_w write_cam_ids_loop_err)
    then have "fst (write_directory L self res pts cals n cams rem w) = Inl IndexError"
      unfolding wd by (cases "write_cam_ids self cams w") (simp add: bnd_def)
    with assms show False by simp
  qed
  have cfgt: "touches ?S (write_cfg self cams (if list_all (contains cals) cams then 1 else 0) 1 n)"
    by (simp add: write_cfg_def Let_def touches_bnd touches_open_w touches_fd_write)
  have "touches ?S ?rest"
    by (intro touches_bnd touches_open_w touches_cams_loop cfgt touches_simple) auto
  moreover have "?po \<notin> ?S"
    using order_ne_paths[of "out_dirname self"]
      rad_dest_ne_paths(1)[of self _ "out_dirname self", symmetric]
    by auto
  ultimately have "\<And>w. files (snd (?rest w)) ?po = files w ?po"
    by (simp add: touches_def)
  with ne show ?thesis
    unfolding wd by (simp add: bnd_def write_cam_ids_ok)
qed

section \<open>Runs of \<open>create_from_cams\<close> on concrete inputs\<close>

lemmas run_simps =
  create_from_cams_def cams_loop.simps write_cam_def write_rad_def write_cfg_def write_cam_ids_def
  bnd_def ret_def raise_def lift_def LOG_def open_w_def fd_write_def Let_def
  getitem_def contains_def np_array_def rectangular_def nvalid_def count_nonzero_def
  T_def hstack_ones_def found_row_def save_ascii_matrix_def matrix_text_def
  path_join_def rad_dest_def isfile_def endswith_def shutil_copy_def
  camera_calibration_yaml_to_radfile_def keys_def upt_rec

lemma str_nat_1 [simp]: "str_nat 1 = ''1''"
  by (simp add: str_nat.simps[of 1] digit_def)

lemma run_rad:
  "fst (create_from_cams \<lparr>repr_float = (\<lambda>x. ''1.0''), repr_res = str_nat, yaml_to_rad = Inr\<rparr>
     \<lparr>out_dirname = ''/d'', basename = ''cam'', use_nth_frame = 1\<rparr>
     [''camA''] [(''camA'', [640, 480])] [(''camA'', [[Fin 1, Fin 2], [Fin 3, Fin 4]])]
     [(''camA'', ''/c/a.rad'')] (- 1) \<lparr>files = [''/c/a.rad'' \<mapsto> ''K''], logged = []\<rparr>) = Inr ()"
  by (simp add: run_simps)

lemma run_rad2:
  "files (snd (create_from_cams \<lparr>repr_float = (\<lambda>x. ''1.0''), repr_res = str_nat, yaml_to_rad = Inr\<rparr>
     \<lparr>out_dirname = ''/d'', basename = ''cam'', use_nth_frame = 1\<rparr>
     [''camA''] [(''camA'', [640, 480])] [(''camA'', [[Fin 1, Fin 2], [Fin 3, Fin 4]])]
     [(''camA'', ''/c/a.rad'')] (- 1) \<lparr>files = [''/c/a.rad'' \<mapsto> ''K''], logged = []\<rparr>))
     ''/d/cam1.rad'' = Some ''K''"
  by (simp add: run_simps)

lemma str_nat_2: "str_nat (Suc (Suc 0)) = ''2''"
  by (simp add: str_nat.simps[of "Suc (Suc 0)"] digit_def)

lemma run_three_cameras:
  "fst (create_from_cams \<lparr>repr_float = (\<lambda>x. ''1.0''), repr_res = str_nat, yaml_to_rad = Inr\<rparr>
     \<lparr>out_dirname = ''/d'', basename = ''cam'', use_nth_frame = 1\<rparr>
     [''camA'', ''camB'', ''camC'']
     [(''camA'', [640, 480]), (''camB'', [640, 480]), (''camC'', [640, 480])]
     [(''camA'', [[Fin 1, Fin 2], [Fin 3, Fin 4]]), (''camB'', [[NaN, NaN], [Fin 0, NaN]]),
      (''camC'', [[Fin 5, Fin 6], [Fin 7, Fin 8]])]
     [] (- 1) \<lparr>files = Map.empty, logged = []\<rparr>) = Inr ()"
  by (simp add: run_simps)

lemma run_unsupported_dropped:
  "fst (create_from_cams \<lparr>repr_float = (\<lambda>x. ''1.0''), repr_res = str_nat, yaml_to_rad = Inr\<rparr>
     \<lparr>out_dirname = ''/d'', basename = ''cam'', use_nth_frame = 1\<rparr>
     [''camA''] [(''camA'', [640, 480])] [(''camA'', [[NaN, NaN]])]
     [(''camA'', ''/c/a.txt'')] (- 1) \<lparr>files = [''/c/a.txt'' \<mapsto> ''K''], logged = []\<rparr>) = Inr ()"
  by (simp add: run_simps)

lemma has_points_iff:
  "has_points cam_points c \<longleftrightarrow>
     (\<exists>pts. map_of cam_points c = Some pts \<and>
        (\<exists>row \<in> set pts. \<exists>x \<in> set row. x \<noteq> NaN \<and> x \<noteq> Fin 0))"
  by (auto simp: has_points_def getitem_def nvalid_zero_iff split: option.splits)

section \<open>The claims about \<open>create_from_cams\<close>\<close>

text \<open>
  C3.  A camera has points when its observation array holds a value that is neither NaN
  nor zero.  The first loop writes no file.  When it returns, the cameras it hands to
  \<open>cam_ids.remove\<close> are those without points, and what is left of \<open>cam_ids\<close> is the
  cameras with points in their original order.  When \<open>create_from_cams\<close> returns
  normally, \<open>camera_order.txt\<close> holds exactly those cameras in that order, every
  camera without points has its \<open>removing cam\<close> record in the log, and the last log
  record lists the dropped cameras.
\<close>

theorem create_from_cams_removes_cameras_without_points:
  assumes "ids = (if cam_ids = [] then keys cam_points else cam_ids)"
  shows
    "(has_points cam_points c \<longleftrightarrow>
        (\<exists>pts. map_of cam_points c = Some pts \<and>
           (\<exists>row \<in> set pts. \<exists>x \<in> set row. x \<noteq> NaN \<and> x \<noteq> Fin 0))) \<and>
     files (snd (cams_to_remove_loop cam_points ids [] w)) = files w \<and>
     (\<forall>rem w1. cams_to_remove_loop cam_points ids [] w = (Inr rem, w1) \<longrightarrow>
        rem = filter (\<lambda>c. \<not> has_points cam_points c) ids \<and>
        remove_each rem ids = Inr (filter (has_points cam_points) ids)) \<and>
     (fst (create_from_cams L self cam_ids res cam_points cals n w) = Inr () \<longrightarrow>
        files (snd (create_from_cams L self cam_ids res cam_points cals n w))
            (path_join (out_dirname self) ''camera_order.txt'') =
          Some (concat (map (\<lambda>c. recorded c @ [nl]) (filter (has_points cam_points) ids))) \<and>
        (\<forall>c \<in> set ids. \<not> has_points cam_points c \<longrightarrow>
           ''removing cam '' @ c @ '' - no points detected''
             \<in> set (logged (snd (create_from_cams L self cam_ids res cam_points cals n w)))) \<and>
        last (logged (snd (create_from_cams L self cam_ids res cam_points cals n w))) =
          ''dropped cams: '' @ join '','' (filter (\<lambda>c. \<not> has_points cam_points c) ids))"
proof (intro conjI allI impI ballI)
  show "has_points cam_points c \<longleftrightarrow>
        (\<exists>pts. map_of cam_points c = Some pts \<and>
           (\<exists>row \<in> set pts. \<exists>x \<in> set row. x \<noteq> NaN \<and> x \<noteq> Fin 0))"
    by (rule has_points_iff)
  show "files (snd (cams_to_remove_loop cam_points ids [] w)) = files w"
    by (rule cams_to_remove_loop_files)
next
  fix rem w1 assume r: "cams_to_remove_loop cam_points ids [] w = (Inr rem, w1)"
  from cams_to_remove_loop_Inr[OF r]
  show rem: "rem = filter (\<lambda>c. \<not> has_points cam_points c) ids" by simp
  show "remove_each rem ids = Inr (filter (has_points cam_points) ids)"
    unfolding rem by (rule remove_each_filter)
next
  let ?run = "create_from_cams L self cam_ids res cam_points cals n w"
  let ?act = "filter (has_points cam_points) ids"
  let ?rem = "filter (\<lambda>c. \<not> has_points cam_points c) ids"
  assume ok: "fst ?run = Inr ()"
  from assms obtain w1 where
    w1: "w1 = w\<lparr>logged := logged w @
             map (\<lambda>c. ''removing cam '' @ c @ '' - no points detected'') ?rem\<rparr>"
    and run: "?run = write_directory L self res cam_points cals n ?act ?rem w1"
  proof (cases rule: create_from_cams_cases[of ids cam_ids cam_points w L self res cals n])
    case (removal_raises e w1)
    with ok show ?thesis by simp
  next
    case (removed w1)
    with that show ?thesis by blast
  qed
  from ok run have okd: "fst (write_directory L self res cam_points cals n ?act ?rem w1) = Inr ()"
    by simp
  from write_directory_order[OF okd] run
  show "files (snd ?run) (path_join (out_dirname self) ''camera_order.txt'') =
          Some (concat (map (\<lambda>c. recorded c @ [nl]) ?act))"
    by simp
  from ensuresD[OF ensures_write_directory_log okd] run
  show "last (logged (snd ?run)) = ''dropped cams: '' @ join '','' ?rem"
    by simp
  fix c assume "c \<in> set ids" "\<not> has_points cam_points c"
  then have "''removing cam '' @ c @ '' - no points detected'' \<in> set (logged w1)"
    unfolding w1 by auto
  from keeps_log[OF keeps_write_directory this] run
  show "''removing cam '' @ c @ '' - no points detected'' \<in> set (logged (snd ?run))"
    by simp
qed

theorem create_from_cams_removes_cameras_without_points_witness:
  "files (snd (create_from_cams \<lparr>repr_float = (\<lambda>x. ''1.0''), repr_res = str_nat, yaml_to_rad = Inr\<rparr>
     \<lparr>out_dirname = ''/d'', basename = ''cam'', use_nth_frame = 1\<rparr>
     [''camA'', ''camB'', ''camC'']
     [(''camA'', [640, 480]), (''camB'', [640, 480]), (''camC'', [640, 480])]
     [(''camA'', [[Fin 1, Fin 2], [Fin 3, Fin 4]]), (''camB'', [[NaN, NaN], [Fin 0, NaN]]),
      (''camC'', [[Fin 5, Fin 6], [Fin 7, Fin 8]])]
     [] (- 1) \<lparr>files = Map.empty, logged = []\<rparr>)) ''/d/camera_order.txt'' =
     Some (''camA'' @ [nl] @ ''camC'' @ [nl]) \<and>
   ''removing cam camB - no points detected'' \<in>
     set (logged (snd (create_from_cams
       \<lparr>repr_float = (\<lambda>x. ''1.0''), repr_res = str_nat, yaml_to_rad = Inr\<rparr>
     \<lparr>out_dirname = ''/d'', basename = ''cam'', use_nth_frame = 1\<rparr>
     [''camA'', ''camB'', ''camC'']
     [(''camA'', [640, 480]), (''camB'', [640, 480]), (''camC'', [640, 480])]
     [(''camA'', [[Fin 1, Fin 2], [Fin 3, Fin 4]]), (''camB'', [[NaN, NaN], [Fin 0, NaN]]),
      (''camC'', [[Fin 5, Fin 6], [Fin 7, Fin 8]])]
     [] (- 1) \<lparr>files = Map.empty, logged = []\<rparr>)))"
  using create_from_cams_removes_cameras_without_points
    [of "[''camA'', ''camB'', ''camC'']" "[''camA'', ''camB'', ''camC'']"
        "[(''camA'', [[Fin 1, Fin 2], [Fin 3, Fin 4]]), (''camB'', [[NaN, NaN], [Fin 0, NaN]]),
          (''camC'', [[Fin 5, Fin 6], [Fin 7, Fin 8]])]"
        "''camB''" "\<lparr>files = Map.empty, logged = []\<rparr>"
        "\<lparr>repr_float = (\<lambda>x. ''1.0''), repr_res = str_nat, yaml_to_rad = Inr\<rparr>"
        "\<lparr>out_dirname = ''/d'', basename = ''cam'', use_nth_frame = 1\<rparr>"
        "[(''camA'', [640, 480]), (''camB'', [640, 480]), (''camC'', [640, 480])]"
        "[]" "- 1",
     THEN conjunct2, THEN conjunct2, THEN conjunct2]
    run_three_cameras
  by (simp add: has_points_def getitem_def nvalid_def count_nonzero_def path_join_def recorded_def)

text \<open>
  C8, as the code has it.  When a camera that stays in the active list (position \<open>k\<close>
  after the cameras without points are removed) has a calibration source whose path
  ends neither in \<open>.yaml\<close> nor in \<open>.rad\<close>, \<open>create_from_cams\<close> raises, and the
  radial file of that camera is not written: the file at its path is what it was before
  the call.  The exception the calibration step of that camera raises, once the source
  is an existing file, is the one that reports the unsupported format.
\<close>

theorem unsupported_calibration_format:
  assumes "ids = (if cam_ids = [] then keys cam_points else cam_ids)"
    and "k < length (filter (has_points cam_points) ids)"
    and "map_of cals (filter (has_points cam_points) ids ! k) = Some url"
    and "\<not> endswith url ''.yaml''" and "\<not> endswith url ''.rad''"
  shows
    "(\<exists>e. fst (create_from_cams L self cam_ids res cam_points cals n w) = Inl e) \<and>
     files (snd (create_from_cams L self cam_ids res cam_points cals n w)) (rad_dest self k) =
       files w (rad_dest self k) \<and>
     (isfile url w1 \<longrightarrow>
        write_rad L self cals k (filter (has_points cam_points) ids ! k) w1 =
          (Inl (Exception (''Calibration format '' @ url @ '' not supported'')), w1))"
proof (intro conjI impI)
  let ?run = "create_from_cams L self cam_ids res cam_points cals n w"
  let ?act = "filter (has_points cam_points) ids"
  let ?rem = "filter (\<lambda>c. \<not> has_points cam_points c) ids"
  show "\<exists>e. fst ?run = Inl e"
    using assms(1)
  proof (cases rule: create_from_cams_cases[of ids cam_ids cam_points w L self res cals n])
    case (removal_raises e w1)
    then show ?thesis by simp
  next
    case (removed w1)
    with fails_write_directory[OF assms(2-5), of L self res cam_points n ?rem]
    show ?thesis by (simp add: fails_def)
  qed
  show "files (snd ?run) (rad_dest self k) = files w (rad_dest self k)"
    using assms(1)
  proof (cases rule: create_from_cams_cases[of ids cam_ids cam_points w L self res cals n])
    case (removal_raises e w1)
    then show ?thesis by simp
  next
    case (removed w1)
    with write_directory_unsupported_frame[OF assms(2-5), of L self res cam_points n ?rem w1]
    show ?thesis by simp
  qed
next
  assume "isfile url w1"
  with assms(3-5)
  show "write_rad L self cals k (filter (has_points cam_points) ids ! k) w1 =
          (Inl (Exception (''Calibration format '' @ url @ '' not supported'')), w1)"
    by (simp add: write_rad_def contains_def getitem_def Let_def)
qed

theorem unsupported_calibration_format_witness:
  "(\<exists>e. fst (create_from_cams \<lparr>repr_float = (\<lambda>x. ''1.0''), repr_res = str_nat, yaml_to_rad = Inr\<rparr>
     \<lparr>out_dirname = ''/d'', basename = ''cam'', use_nth_frame = 1\<rparr>
     [''camA''] [(''camA'', [640, 480])] [(''camA'', [[Fin 1, Fin 2], [Fin 3, Fin 4]])]
     [(''camA'', ''/c/a.txt'')] (- 1) \<lparr>files = [''/c/a.txt'' \<mapsto> ''K''], logged = []\<rparr>) = Inl e) \<and>
   files (snd (create_from_cams \<lparr>repr_float = (\<lambda>x. ''1.0''), repr_res = str_nat, yaml_to_rad = Inr\<rparr>
     \<lparr>out_dirname = ''/d'', basename = ''cam'', use_nth_frame = 1\<rparr>
     [''camA''] [(''camA'', [640, 480])] [(''camA'', [[Fin 1, Fin 2], [Fin 3, Fin 4]])]
     [(''camA'', ''/c/a.txt'')] (- 1) \<lparr>files = [''/c/a.txt'' \<mapsto> ''K''], logged = []\<rparr>))
     ''/d/cam1.rad'' = None \<and>
   write_rad \<lparr>repr_float = (\<lambda>x. ''1.0''), repr_res = str_nat, yaml_to_rad = Inr\<rparr>
     \<lparr>out_dirname = ''/d'', basename = ''cam'', use_nth_frame = 1\<rparr>
     [(''camA'', ''/c/a.txt'')] 0 ''camA'' \<lparr>files = [''/c/a.txt'' \<mapsto> ''K''], logged = []\<rparr> =
     (Inl (Exception ''Calibration format /c/a.txt not supported''),
      \<lparr>files = [''/c/a.txt'' \<mapsto> ''K''], logged = []\<rparr>)"
  using unsupported_calibration_format
    [of "[''camA'']" "[''camA'']" "[(''camA'', [[Fin 1, Fin 2], [Fin 3, Fin 4]])]" 0
        "[(''camA'', ''/c/a.txt'')]" "''/c/a.txt''"
        "\<lparr>repr_float = (\<lambda>x. ''1.0''), repr_res = str_nat, yaml_to_rad = Inr\<rparr>"
        "\<lparr>out_dirname = ''/d'', basename = ''cam'', use_nth_frame = 1\<rparr>"
        "[(''camA'', [640, 480])]" "- 1" "\<lparr>files = [''/c/a.txt'' \<mapsto> ''K''], logged = []\<rparr>"
        "\<lparr>files = [''/c/a.txt'' \<mapsto> ''K''], logged = []\<rparr>"]
  by (simp add: has_points_def getitem_def nvalid_def count_nonzero_def endswith_def
        rad_dest_def isfile_def)

text \<open>
  C8 as stated fails for a camera without points: it is removed before its calibration
  source is looked at, and the call returns normally.
\<close>

theorem unsupported_calibration_dropped_counterexample:
  "fst (create_from_cams \<lparr>repr_float = (\<lambda>x. ''1.0''), repr_res = str_nat, yaml_to_rad = Inr\<rparr>
     \<lparr>out_dirname = ''/d'', basename = ''cam'', use_nth_frame = 1\<rparr>
     [''camA''] [(''camA'', [640, 480])] [(''camA'', [[NaN, NaN]])]
     [(''camA'', ''/c/a.txt'')] (- 1) \<lparr>files = [''/c/a.txt'' \<mapsto> ''K''], logged = []\<rparr>) = Inr () \<and>
   \<not> endswith ''/c/a.txt'' ''.yaml'' \<and> \<not> endswith ''/c/a.txt'' ''.rad''"
  by (simp add: run_simps)

text \<open>
  C6, as the code has it.  \<open>get_camera_names_map\<close> maps the id at 0-based position
  \<open>i\<close> of the recorded camera order, when the id does not occur again further down,
  to \<open>basename<i+1>.rad\<close>, the literal word followed by the 1-based index.  After a
  normal return of \<open>create_from_cams\<close> on ids without newlines, the recorded order is
  the active cameras as \<open>recorded\<close>, and the radial file of the active camera at
  position \<open>j\<close> with a calibration source exists at
  \<open><out_dirname>/<self.basename><j+1>.rad\<close>: the same index, under the basename of the
  instance.
\<close>

theorem camera_names_map_index:
  assumes "ids = (if cam_ids = [] then keys cam_points else cam_ids)"
  shows
    "(read_calibration_names dirname w0 = Inr names \<and> i < length names \<and>
      names ! i \<notin> set (drop (Suc i) names) \<longrightarrow>
        (\<exists>m. get_camera_names_map dirname ''rad'' w0 = Inr m \<and>
             m (names ! i) = Some (''basename'' @ str_nat (i + 1) @ ''.rad''))) \<and>
     (fst (create_from_cams L self cam_ids res cam_points cals n w) = Inr () \<and>
      (\<forall>c \<in> set ids. nl \<notin> set c) \<longrightarrow>
        read_calibration_names (out_dirname self)
            (snd (create_from_cams L self cam_ids res cam_points cals n w)) =
          Inr (map recorded (filter (has_points cam_points) ids)) \<and>
        (\<forall>j < length (filter (has_points cam_points) ids).
           contains cals (filter (has_points cam_points) ids ! j) \<longrightarrow>
             isfile (out_dirname self @ ''/'' @ basename self @ str_nat (j + 1) @ ''.rad'')
               (snd (create_from_cams L self cam_ids res cam_points cals n w))))"
proof (intro conjI impI allI)
  assume "read_calibration_names dirname w0 = Inr names \<and> i < length names \<and>
      names ! i \<notin> set (drop (Suc i) names)"
  then show "\<exists>m. get_camera_names_map dirname ''rad'' w0 = Inr m \<and>
             m (names ! i) = Some (''basename'' @ str_nat (i + 1) @ ''.rad'')"
    using names_loop_at[of i names 0 Map.empty]
    by (simp add: get_camera_names_map_def tmpl_def)
next
  let ?run = "create_from_cams L self cam_ids res cam_points cals n w"
  let ?act = "filter (has_points cam_points) ids"
  let ?rem = "filter (\<lambda>c. \<not> has_points cam_points c) ids"
  assume a: "fst ?run = Inr () \<and> (\<forall>c \<in> set ids. nl \<notin> set c)"
  then have ok: "fst ?run = Inr ()" and nonl: "\<forall>c \<in> set ids. nl \<notin> set c" by simp_all
  from assms obtain w1 where
    run: "?run = write_directory L self res cam_points cals n ?act ?rem w1"
  proof (cases rule: create_from_cams_cases[of ids cam_ids cam_points w L self res cals n])
    case (removal_raises e w1)
    with ok show ?thesis by simp
  next
    case (removed w1)
    with that show ?thesis by blast
  qed
  from ok run have okd: "fst (write_directory L self res cam_points cals n ?act ?rem w1) = Inr ()"
    by simp
  have "\<forall>l \<in> set (map recorded ?act). nl \<notin> set l"
    using nonl by (auto simp: recorded_def dest: in_set_tl)
  from split_on_lines[OF this]
  have "split_on nl (concat (map (\<lambda>c. recorded c @ [nl]) ?act)) = map recorded ?act @ [[]]"
    by (simp add: comp_def)
  with write_directory_order[OF okd] run
  show "read_calibration_names (out_dirname self) (snd ?run) = Inr (map recorded ?act)"
    by (simp add: read_calibration_names_def)
  fix j assume j: "j < length ?act" and c: "contains cals (?act ! j)"
  from ensuresD[OF ensures_write_directory_rad[OF j c] okd] run
  show "isfile (out_dirname self @ ''/'' @ basename self @ str_nat (j + 1) @ ''.rad'') (snd ?run)"
    by (simp add: isfile_def rad_dest_def)
qed

theorem camera_names_map_index_witness:
  "(\<exists>m. get_camera_names_map ''/d'' ''rad''
      (snd (create_from_cams \<lparr>repr_float = (\<lambda>x. ''1.0''), repr_res = str_nat, yaml_to_rad = Inr\<rparr>
     \<lparr>out_dirname = ''/d'', basename = ''cam'', use_nth_frame = 1\<rparr>
     [''camA''] [(''camA'', [640, 480])] [(''camA'', [[Fin 1, Fin 2], [Fin 3, Fin 4]])]
     [(''camA'', ''/c/a.rad'')] (- 1) \<lparr>files = [''/c/a.rad'' \<mapsto> ''K''], logged = []\<rparr>)) = Inr m \<and>
     m ''camA'' = Some ''basename1.rad'') \<and>
   isfile ''/d/cam1.rad''
      (snd (create_from_cams \<lparr>repr_float = (\<lambda>x. ''1.0''), repr_res = str_nat, yaml_to_rad = Inr\<rparr>
     \<lparr>out_dirname = ''/d'', basename = ''cam'', use_nth_frame = 1\<rparr>
     [''camA''] [(''camA'', [640, 480])] [(''camA'', [[Fin 1, Fin 2], [Fin 3, Fin 4]])]
     [(''camA'', ''/c/a.rad'')] (- 1) \<lparr>files = [''/c/a.rad'' \<mapsto> ''K''], logged = []\<rparr>))"
proof -
  let ?w = "snd (create_from_cams \<lparr>repr_float = (\<lambda>x. ''1.0''), repr_res = str_nat, yaml_to_rad = Inr\<rparr>
     \<lparr>out_dirname = ''/d'', basename = ''cam'', use_nth_frame = 1\<rparr>
     [''camA''] [(''camA'', [640, 480])] [(''camA'', [[Fin 1, Fin 2], [Fin 3, Fin 4]])]
     [(''camA'', ''/c/a.rad'')] (- 1) \<lparr>files = [''/c/a.rad'' \<mapsto> ''K''], logged = []\<rparr>)"
  note t = camera_names_map_index
    [of "[''camA'']" "[''camA'']" "[(''camA'', [[Fin 1, Fin 2], [Fin 3, Fin 4]])]"
        "''/d''" ?w "[''camA'']" 0
        "\<lparr>repr_float = (\<lambda>x. ''1.0''), repr_res = str_nat, yaml_to_rad = Inr\<rparr>"
        "\<lparr>out_dirname = ''/d'', basename = ''cam'', use_nth_frame = 1\<rparr>"
        "[(''camA'', [640, 480])]" "[(''camA'', ''/c/a.rad'')]" "- 1"
        "\<lparr>files = [''/c/a.rad'' \<mapsto> ''K''], logged = []\<rparr>"]
  from t[THEN conjunct2] run_rad
  have b: "read_calibration_names ''/d'' ?w = Inr [''camA''] \<and> isfile ''/d/cam1.rad'' ?w"
    by (simp add: has_points_def getitem_def nvalid_def count_nonzero_def recorded_def
          contains_def nl_def)
  with t[THEN conjunct1] show ?thesis by simp
qed

text \<open>
  C6 as stated fails.  With the default basename \<open>cam\<close> the radial file of the first
  camera is \<open>/d/cam1.rad\<close>, there is no \<open>/d/basename1.rad\<close>, and the map names
  \<open>basename1.rad\<close>.  And an id recorded twice is mapped to the index of its last
  position only.
\<close>

theorem camera_names_map_counterexample:
  "files (snd (create_from_cams \<lparr>repr_float = (\<lambda>x. ''1.0''), repr_res = str_nat, yaml_to_rad = Inr\<rparr>
     \<lparr>out_dirname = ''/d'', basename = ''cam'', use_nth_frame = 1\<rparr>
     [''camA''] [(''camA'', [640, 480])] [(''camA'', [[Fin 1, Fin 2], [Fin 3, Fin 4]])]
     [(''camA'', ''/c/a.rad'')] (- 1) \<lparr>files = [''/c/a.rad'' \<mapsto> ''K''], logged = []\<rparr>))
     ''/d/cam1.rad'' = Some ''K'' \<and>
   files (snd (create_from_cams \<lparr>repr_float = (\<lambda>x. ''1.0''), repr_res = str_nat, yaml_to_rad = Inr\<rparr>
     \<lparr>out_dirname = ''/d'', basename = ''cam'', use_nth_frame = 1\<rparr>
     [''camA''] [(''camA'', [640, 480])] [(''camA'', [[Fin 1, Fin 2], [Fin 3, Fin 4]])]
     [(''camA'', ''/c/a.rad'')] (- 1) \<lparr>files = [''/c/a.rad'' \<mapsto> ''K''], logged = []\<rparr>))
     ''/d/basename1.rad'' = None \<and>
   (\<exists>m. get_camera_names_map ''/d'' ''rad''
      (snd (create_from_cams \<lparr>repr_float = (\<lambda>x. ''1.0''), repr_res = str_nat, yaml_to_rad = Inr\<rparr>
     \<lparr>out_dirname = ''/d'', basename = ''cam'', use_nth_frame = 1\<rparr>
     [''camA''] [(''camA'', [640, 480])] [(''camA'', [[Fin 1, Fin 2], [Fin 3, Fin 4]])]
     [(''camA'', ''/c/a.rad'')] (- 1) \<lparr>files = [''/c/a.rad'' \<mapsto> ''K''], logged = []\<rparr>)) = Inr m \<and>
     m ''camA'' = Some ''basename1.rad'') \<and>
   (\<exists>m. get_camera_names_map ''/d'' ''rad''
      \<lparr>files = [''/d/camera_order.txt'' \<mapsto> ''a'' @ [CHR 0x0A] @ ''a'' @ [CHR 0x0A]], logged = []\<rparr>
        = Inr m \<and> m ''a'' = Some ''basename2.rad'')"
  by (simp add: run_simps get_camera_names_map_def read_calibration_names_def tmpl_def nl_def
        str_nat_2)

end
